theory Spec2Isabelle
  imports Complex_Main
begin

section \<open>The video clipper: download a video, cut it into segments\<close>

text \<open>
  The program is one Python script, \<^verbatim>\<open>app.py\<close>. It has three functions of interest,
  \<^verbatim>\<open>sanitize_filename\<close>, \<^verbatim>\<open>download_youtube_video\<close> and \<^verbatim>\<open>trim_video\<close>, and a top-level
  button handler that calls them in that order.

  Everything the script does to its surroundings is made explicit. What the surroundings
  answer (the video host, the file system, the media library) is a \<open>world\<close>: a record of
  oracles, one for each call that leaves the script. What the script does to them (messages
  shown, files written, handles opened and closed, seconds slept) is collected in an \<open>app\<close>
  record that every function takes and returns. An exception is a value \<open>Inl msg\<close>, where
  \<open>msg\<close> is the text \<^verbatim>\<open>str(e)\<close> of the exception.
\<close>

subsection \<open>Strings and paths\<close>

text \<open>
  The nine characters of the character class in \<^verbatim>\<open>sanitize_filename\<close>: less-than,
  greater-than, colon, double quote (0x22), slash, backslash (0x5C), bar, question mark,
  star. All nine are ASCII, so removing them from the UTF-8 bytes of a title removes the
  same characters as removing them from its code points.
\<close>

definition forbidden_chars :: "char list" where
  "forbidden_chars =
     [CHR ''<'', CHR ''>'', CHR '':'', CHR 0x22, CHR ''/'', CHR 0x5C, CHR ''|'', CHR ''?'', CHR ''*'']"

text \<open>
  \<^verbatim>\<open>re.sub(pattern, repl, s)\<close> for a pattern that is one character class: every
  character of the class is a match of length one, and each match is replaced by \<open>repl\<close>.
\<close>

definition re_sub_class :: "char list \<Rightarrow> string \<Rightarrow> string \<Rightarrow> string" where
  "re_sub_class cls repl s = concat (map (\<lambda>c. if c \<in> set cls then repl else [c]) s)"

definition sanitize_filename :: "string \<Rightarrow> string" where
  "sanitize_filename filename = re_sub_class forbidden_chars [] filename"

text \<open>\<^verbatim>\<open>os.path.join(a, b)\<close> with two components, as \<^verbatim>\<open>posixpath\<close> has it.\<close>

definition os_path_join :: "string \<Rightarrow> string \<Rightarrow> string" where
  "os_path_join a b =
     (if b \<noteq> [] \<and> hd b = CHR ''/'' then b
      else if a = [] \<or> last a = CHR ''/'' then a @ b
      else a @ ''/'' @ b)"

text \<open>The decimal text of a natural number, as an f-string prints it.\<close>

definition digit_char :: "nat \<Rightarrow> char" where
  "digit_char d = ''0123456789'' ! d"

function str_nat :: "nat \<Rightarrow> string" where
  "str_nat n = (if n < 10 then [digit_char n] else str_nat (n div 10) @ [digit_char (n mod 10)])"
  by pat_completeness auto
termination
  by (relation "measure (\<lambda>n. n)") auto

declare str_nat.simps [simp del]

subsection \<open>The world and the effects\<close>

text \<open>
  A stream descriptor of the video host's client library: the fields the script's query
  reads. \<open>resolution\<close> is the number in the label (720 for 720p), and \<open>None\<close> for a stream
  that reports none.
\<close>

record stream =
  itag :: nat
  is_progressive :: bool
  subtype :: string
  resolution :: "nat option"

record world =
  yt_streams :: "string \<Rightarrow> string + stream list"
  yt_title :: "string \<Rightarrow> string + string"
  stream_download :: "stream \<Rightarrow> string \<Rightarrow> string \<Rightarrow> string option"
  download_visible :: "string \<Rightarrow> nat \<Rightarrow> bool"
  path_exists :: "string \<Rightarrow> bool"
  open_clip :: "string \<Rightarrow> string + rat"
  makedirs :: "string \<Rightarrow> string option"
  write_segment :: "rat \<Rightarrow> rat \<Rightarrow> string \<Rightarrow> string option"

text \<open>
  \<^item> \<open>yt_streams w url\<close>: \<^verbatim>\<open>YouTube(url).streams\<close>, the streams in the order the host
    reports them, or the exception of the lookup.
  \<^item> \<open>yt_title w url\<close>: \<^verbatim>\<open>yt.title\<close>, or its exception.
  \<^item> \<open>stream_download w video dir name\<close>: \<^verbatim>\<open>video.download(output_path=dir, filename=name)\<close>;
    \<open>Some msg\<close> when it raises.
  \<^item> \<open>download_visible w p n\<close>: the answer of the \<open>n\<close>-th call (from 0) of
    \<^verbatim>\<open>os.path.exists(p)\<close> after the download call has returned.
  \<^item> \<open>path_exists w p\<close>: \<^verbatim>\<open>os.path.exists(p)\<close> as \<^verbatim>\<open>trim_video\<close> asks it.
  \<^item> \<open>open_clip w p\<close>: \<^verbatim>\<open>VideoFileClip(p)\<close>; \<open>Inr d\<close> is an open clip of duration \<open>d\<close>
    seconds, \<open>Inl msg\<close> is the exception and no handle.
  \<^item> \<open>makedirs w p\<close>: \<^verbatim>\<open>os.makedirs(p)\<close>; \<open>Some msg\<close> when it raises.
  \<^item> \<open>write_segment w s e p\<close>: the two calls that produce one segment,
    \<^verbatim>\<open>video.subclipped(s, e)\<close> and \<^verbatim>\<open>segment.write_videofile(p, ...)\<close>; \<open>Some msg\<close> when
    either raises.
\<close>

record app =
  errors :: "string list"
  successes :: "string list"
  warnings :: "string list"
  sleeps :: "nat list"
  downloads :: "(stream \<times> string \<times> string) list"
  clips_opened :: "string list"
  clips_closed :: "string list"
  made_dirs :: "string list"
  bars :: "rat list"
  progress_updates :: "rat list"
  subclips :: "(rat \<times> rat) list"
  written :: "string list"

definition app0 :: app where
  "app0 = \<lparr>errors = [], successes = [], warnings = [], sleeps = [], downloads = [],
           clips_opened = [], clips_closed = [], made_dirs = [], bars = [],
           progress_updates = [], subclips = [], written = []\<rparr>"

definition st_error :: "string \<Rightarrow> app \<Rightarrow> app" where
  "st_error msg st = st\<lparr>errors := errors st @ [msg]\<rparr>"

definition st_success :: "string \<Rightarrow> app \<Rightarrow> app" where
  "st_success msg st = st\<lparr>successes := successes st @ [msg]\<rparr>"

definition st_warning :: "string \<Rightarrow> app \<Rightarrow> app" where
  "st_warning msg st = st\<lparr>warnings := warnings st @ [msg]\<rparr>"

subsection \<open>Choosing the stream\<close>

text \<open>
  The query \<^verbatim>\<open>yt.streams.filter(progressive=True, file_extension="mp4")
  .order_by("resolution").desc().first()\<close> runs in the host's client library
  (\<^verbatim>\<open>pytubefix\<close>, class \<^verbatim>\<open>StreamQuery\<close>), which the script imports. Its four methods are:
  \<^item> \<^verbatim>\<open>filter\<close> keeps the streams whose \<^verbatim>\<open>is_progressive\<close> and \<^verbatim>\<open>subtype\<close> equal the
    arguments, in order;
  \<^item> \<^verbatim>\<open>order_by\<close> drops the streams whose attribute is \<^verbatim>\<open>None\<close> and sorts the rest with
    Python's \<^verbatim>\<open>sorted\<close> (ascending, stable) by the number in the attribute;
  \<^item> \<^verbatim>\<open>desc\<close> reverses the list (\<^verbatim>\<open>[::-1]\<close>);
  \<^item> \<^verbatim>\<open>first\<close> is the element at index 0, or \<^verbatim>\<open>None\<close> for an empty list.
  \<open>sort_key\<close> is a stable sort as well.
\<close>

definition filter_streams :: "bool \<Rightarrow> string \<Rightarrow> stream list \<Rightarrow> stream list" where
  "filter_streams progressive file_extension ss =
     filter (\<lambda>s. is_progressive s = progressive \<and> subtype s = file_extension) ss"

definition res_key :: "stream \<Rightarrow> nat" where
  "res_key s = (case resolution s of None \<Rightarrow> 0 | Some r \<Rightarrow> r)"

definition order_by_resolution :: "stream list \<Rightarrow> stream list" where
  "order_by_resolution ss = sort_key res_key (filter (\<lambda>s. resolution s \<noteq> None) ss)"

definition desc :: "stream list \<Rightarrow> stream list" where
  "desc ss = rev ss"

definition first :: "stream list \<Rightarrow> stream option" where
  "first ss = (case ss of [] \<Rightarrow> None | s # _ \<Rightarrow> Some s)"

definition select_stream :: "stream list \<Rightarrow> stream option" where
  "select_stream streams = first (desc (order_by_resolution (filter_streams True ''mp4'' streams)))"

subsection \<open>download_youtube_video\<close>

definition max_attempts :: nat where
  "max_attempts = 10"

text \<open>
  The loop \<^verbatim>\<open>while not os.path.exists(output_path) and attempts < max_attempts\<close>. The
  condition asks the file system first, so the call made when the counter is \<open>attempts\<close> is
  call number \<open>attempts\<close>. Each turn sleeps one second and adds one to the counter. The
  result is the counter when the loop ends: the number of turns taken.
\<close>

function wait_for_file :: "(nat \<Rightarrow> bool) \<Rightarrow> nat \<Rightarrow> nat" where
  "wait_for_file ex attempts =
     (if \<not> ex attempts \<and> attempts < max_attempts then wait_for_file ex (attempts + 1)
      else attempts)"
  by pat_completeness auto
termination
  by (relation "measure (\<lambda>(ex, attempts). max_attempts - attempts)") auto

declare wait_for_file.simps [simp del]

definition download_youtube_video ::
  "world \<Rightarrow> string \<Rightarrow> app \<Rightarrow> (string option \<times> string option) \<times> app" where
  "download_youtube_video w url st =
     (case yt_streams w url of
        Inl e \<Rightarrow> ((None, None), st_error (''Error downloading video: '' @ e) st)
      | Inr streams \<Rightarrow>
          (case select_stream streams of
             None \<Rightarrow> ((None, None), st_error ''No suitable video stream found'' st)
           | Some video \<Rightarrow>
               (case yt_title w url of
                  Inl e \<Rightarrow> ((None, None), st_error (''Error downloading video: '' @ e) st)
                | Inr title \<Rightarrow>
                    (let filename = sanitize_filename title;
                         st1 = st\<lparr>downloads := downloads st
                                  @ [(video, ''youtube_videos'', filename @ ''.mp4'')]\<rparr>
                     in case stream_download w video ''youtube_videos'' (filename @ ''.mp4'') of
                          Some e \<Rightarrow> ((None, None), st_error (''Error downloading video: '' @ e) st1)
                        | None \<Rightarrow>
                            (let output_path = os_path_join ''youtube_videos'' (filename @ ''.mp4'');
                                 attempts = wait_for_file (download_visible w output_path) 0;
                                 st2 = st1\<lparr>sleeps := sleeps st1 @ replicate attempts 1\<rparr>
                             in if \<not> download_visible w output_path (attempts + 1)
                                then ((None, None), st_error ''Download failed - file not created'' st2)
                                else ((Some output_path, Some filename), st2))))))"

subsection \<open>trim_video\<close>

text \<open>
  The duration of the clip is a Python float and the segment length is the integer of the
  number input (\<^verbatim>\<open>min_value=1, value=60\<close>). A float is a rational number, and with an
  integer segment length every operation of the planning is exact on it: \<^verbatim>\<open>//\<close> and \<^verbatim>\<open>%\<close>
  of a float by an integer (for durations below \<open>2 ^ 53\<close> seconds), the integer products
  \<^verbatim>\<open>i * segment_duration\<close>, and \<^verbatim>\<open>min\<close>. So the duration is a \<open>rat\<close> and the arithmetic is
  the exact one. Both \<^verbatim>\<open>//\<close> and \<^verbatim>\<open>%\<close> raise \<^verbatim>\<open>ZeroDivisionError\<close> for a zero divisor; the
  quotient is rounded down and the remainder has the sign of the divisor. The text of the
  exception differs between Python versions; \<open>zero_division_msg\<close> stands for it, and no
  property depends on its wording.
\<close>

definition zero_division_msg :: string where
  "zero_division_msg = ''float floor division by zero''"

definition py_floordiv :: "rat \<Rightarrow> int \<Rightarrow> string + int" where
  "py_floordiv a b = (if b = 0 then Inl zero_division_msg else Inr \<lfloor>a / of_int b\<rfloor>)"

definition py_mod :: "rat \<Rightarrow> int \<Rightarrow> string + rat" where
  "py_mod a b =
     (if b = 0 then Inl zero_division_msg else Inr (a - of_int b * of_int \<lfloor>a / of_int b\<rfloor>))"

definition num_segments_of :: "rat \<Rightarrow> int \<Rightarrow> string + int" where
  "num_segments_of total_duration segment_duration =
     (case py_floordiv total_duration segment_duration of
        Inl e \<Rightarrow> Inl e
      | Inr q \<Rightarrow>
          (case py_mod total_duration segment_duration of
             Inl e \<Rightarrow> Inl e
           | Inr r \<Rightarrow> Inr (q + (if r > 0 then 1 else 0))))"

text \<open>The window of turn \<open>i\<close> of the loop, and the file it is written to.\<close>

definition start_time :: "int \<Rightarrow> nat \<Rightarrow> rat" where
  "start_time segment_duration i = of_int (int i * segment_duration)"

definition end_time :: "rat \<Rightarrow> int \<Rightarrow> nat \<Rightarrow> rat" where
  "end_time total_duration segment_duration i =
     min (of_int ((int i + 1) * segment_duration)) total_duration"

definition part_path :: "string \<Rightarrow> nat \<Rightarrow> string" where
  "part_path output_dir i = os_path_join output_dir (''part_'' @ str_nat (i + 1) @ ''.mp4'')"

text \<open>
  The loop \<^verbatim>\<open>for i in range(num_segments)\<close>, over the list of the indices still to do.
  A turn that raises leaves the loop with the exception; the window it asked for is
  recorded in \<open>subclips\<close>, the file only after it was written.
\<close>

fun segment_loop ::
  "world \<Rightarrow> rat \<Rightarrow> int \<Rightarrow> string \<Rightarrow> int \<Rightarrow> nat list \<Rightarrow> string list \<Rightarrow> app
   \<Rightarrow> (string + string list) \<times> app" where
  "segment_loop w total_duration segment_duration output_dir num_segments [] trimmed_paths st =
     (Inr trimmed_paths, st)"
| "segment_loop w total_duration segment_duration output_dir num_segments (i # rest) trimmed_paths st =
     (let s = start_time segment_duration i;
          e = end_time total_duration segment_duration i;
          output_path = part_path output_dir i;
          st1 = st\<lparr>subclips := subclips st @ [(s, e)]\<rparr>
      in case write_segment w s e output_path of
           Some err \<Rightarrow> (Inl err, st1)
         | None \<Rightarrow>
             segment_loop w total_duration segment_duration output_dir num_segments rest
               (trimmed_paths @ [output_path])
               (st1\<lparr>written := written st1 @ [output_path],
                    progress_updates := progress_updates st1
                      @ [of_nat (i + 1) / of_int num_segments]\<rparr>))"

text \<open>
  The body of the \<^verbatim>\<open>try\<close> block. The first component of the result says whether
  \<^verbatim>\<open>video\<close> was assigned, that is whether \<^verbatim>\<open>VideoFileClip\<close> returned a clip.
\<close>

definition trim_try ::
  "world \<Rightarrow> string \<Rightarrow> string \<Rightarrow> int \<Rightarrow> app \<Rightarrow> bool \<times> (string + string list) \<times> app" where
  "trim_try w video_path filename segment_duration st =
     (case open_clip w video_path of
        Inl e \<Rightarrow> (False, Inl e, st)
      | Inr total_duration \<Rightarrow>
          (let st1 = st\<lparr>clips_opened := clips_opened st @ [video_path]\<rparr>
           in case num_segments_of total_duration segment_duration of
                Inl e \<Rightarrow> (True, Inl e, st1)
              | Inr num_segments \<Rightarrow>
                  (let output_dir = os_path_join ''trimmed_videos'' (sanitize_filename filename)
                   in case (if \<not> path_exists w output_dir then makedirs w output_dir else None) of
                        Some e \<Rightarrow> (True, Inl e, st1)
                      | None \<Rightarrow>
                          (let st2 = (if \<not> path_exists w output_dir
                                      then st1\<lparr>made_dirs := made_dirs st1 @ [output_dir]\<rparr>
                                      else st1);
                               st3 = st2\<lparr>bars := bars st2 @ [0]\<rparr>;
                               (r, st4) = segment_loop w total_duration segment_duration output_dir
                                            num_segments [0..<nat num_segments] [] st3
                           in (True, r, st4)))))"

text \<open>
  The whole function: the early return, the \<^verbatim>\<open>try\<close> block, the \<^verbatim>\<open>except\<close> clause that
  reports the exception and returns the empty list, and the \<^verbatim>\<open>finally\<close> clause that
  closes the clip if \<^verbatim>\<open>video\<close> was assigned.
\<close>

definition trim_video :: "world \<Rightarrow> string \<Rightarrow> string \<Rightarrow> int \<Rightarrow> app \<Rightarrow> string list \<times> app" where
  "trim_video w video_path filename segment_duration st =
     (if \<not> path_exists w video_path
      then ([], st_error (''Video file not found: '' @ video_path) st)
      else
        (case trim_try w video_path filename segment_duration st of
           (video, r, st1) \<Rightarrow>
             (let (res, st2) =
                    (case r of
                       Inl e \<Rightarrow> ([], st_error (''Error trimming video: '' @ e) st1)
                     | Inr trimmed_paths \<Rightarrow> (trimmed_paths, st1))
              in (res, if video then st2\<lparr>clips_closed := clips_closed st2 @ [video_path]\<rparr>
                       else st2))))"

subsection \<open>The button handler\<close>

text \<open>
  The block under \<^verbatim>\<open>with st.spinner("Trimming video...")\<close>: the call of \<^verbatim>\<open>trim_video\<close> and
  the test \<^verbatim>\<open>if trimmed_paths:\<close> that reports success and shows the gallery. The result
  is the list of the paths shown.
\<close>

definition trim_stage :: "world \<Rightarrow> string \<Rightarrow> string \<Rightarrow> int \<Rightarrow> app \<Rightarrow> string list \<times> app" where
  "trim_stage w video_path video_filename segment_duration st =
     (case trim_video w video_path video_filename segment_duration st of
        (trimmed_paths, st1) \<Rightarrow>
          if trimmed_paths \<noteq> []
          then (trimmed_paths,
                st_success (''Video trimmed successfully into ''
                            @ str_nat (length trimmed_paths) @ '' segments!'') st1)
          else ([], st1))"

text \<open>
  The handler of the button. \<^verbatim>\<open>if video_path and video_filename\<close> is a truth test: a
  string passes it when it is neither \<^verbatim>\<open>None\<close> nor empty.
\<close>

definition process_video :: "world \<Rightarrow> string \<Rightarrow> int \<Rightarrow> app \<Rightarrow> string list \<times> app" where
  "process_video w youtube_url segment_duration st =
     (if youtube_url \<noteq> [] then
        (case download_youtube_video w youtube_url st of
           ((Some video_path, Some video_filename), st1) \<Rightarrow>
             if video_path \<noteq> [] \<and> video_filename \<noteq> []
             then trim_stage w video_path video_filename segment_duration
                    (st_success ''Video downloaded successfully!'' st1)
             else ([], st1)
         | (_, st1) \<Rightarrow> ([], st1))
      else ([], st_warning ''Please enter a YouTube video URL'' st))"

subsection \<open>Vocabulary of the statements\<close>

text \<open>
  The run of \<^verbatim>\<open>download_youtube_video\<close> reaches the line after \<^verbatim>\<open>video.download(...)\<close>:
  the lookup gave streams, one was chosen, the title was read and the transfer call
  returned without raising.
\<close>

definition transfer_returned :: "world \<Rightarrow> string \<Rightarrow> bool" where
  "transfer_returned w url =
     (case yt_streams w url of
        Inl e \<Rightarrow> False
      | Inr streams \<Rightarrow>
          (case select_stream streams of
             None \<Rightarrow> False
           | Some video \<Rightarrow>
               (case yt_title w url of
                  Inl e \<Rightarrow> False
                | Inr title \<Rightarrow>
                    stream_download w video ''youtube_videos'' (sanitize_filename title @ ''.mp4'') = None)))"

text \<open>
  The path \<^verbatim>\<open>output_path\<close> that \<^verbatim>\<open>download_youtube_video\<close> builds from the title: the file
  the transfer is asked to write and the file the loop looks for.
\<close>

definition output_path_of :: "string \<Rightarrow> string" where
  "output_path_of title = os_path_join ''youtube_videos'' (sanitize_filename title @ ''.mp4'')"

text \<open>
  The streams the query can choose from: progressive, mp4, and reporting a resolution.
\<close>

definition candidates :: "stream list \<Rightarrow> stream list" where
  "candidates streams =
     filter (\<lambda>s. is_progressive s \<and> subtype s = ''mp4'' \<and> resolution s \<noteq> None) streams"

text \<open>
  The directory \<^verbatim>\<open>trim_video\<close> writes to, the window of turn \<open>i\<close> as a pair, and the
  value \<^verbatim>\<open>(i + 1) / num_segments\<close> given to the progress bar after turn \<open>i\<close>.
\<close>

definition output_dir_of :: "string \<Rightarrow> string" where
  "output_dir_of filename = os_path_join ''trimmed_videos'' (sanitize_filename filename)"

definition window :: "rat \<Rightarrow> int \<Rightarrow> nat \<Rightarrow> rat \<times> rat" where
  "window total_duration segment_duration i =
     (start_time segment_duration i, end_time total_duration segment_duration i)"

definition progress_at :: "int \<Rightarrow> nat \<Rightarrow> rat" where
  "progress_at num_segments i = of_nat (i + 1) / of_int num_segments"

text \<open>
  The windows a call of \<^verbatim>\<open>trim_video\<close> asks the clip for, in order, starting from a state
  with nothing recorded.
\<close>

definition windows_cut :: "world \<Rightarrow> string \<Rightarrow> string \<Rightarrow> int \<Rightarrow> (rat \<times> rat) list" where
  "windows_cut w video_path filename segment_duration =
     subclips (snd (trim_video w video_path filename segment_duration app0))"

subsection \<open>Example worlds\<close>

text \<open>
  Four streams as a host reports them: two progressive mp4 streams, one mp4 stream that is
  video only, one progressive webm stream. \<open>demo_world\<close> is a run where everything works:
  the title is \<open>My: Video?\<close>, the file shows up at the third look, the clip lasts 150
  seconds. The other worlds change one answer each.
\<close>

definition s18 :: stream where
  "s18 = \<lparr>itag = 18, is_progressive = True, subtype = ''mp4'', resolution = Some 360\<rparr>"

definition s22 :: stream where
  "s22 = \<lparr>itag = 22, is_progressive = True, subtype = ''mp4'', resolution = Some 720\<rparr>"

definition s137 :: stream where
  "s137 = \<lparr>itag = 137, is_progressive = False, subtype = ''mp4'', resolution = Some 1080\<rparr>"

definition s43 :: stream where
  "s43 = \<lparr>itag = 43, is_progressive = True, subtype = ''webm'', resolution = Some 360\<rparr>"

definition demo_world :: world where
  "demo_world =
     \<lparr>yt_streams = (\<lambda>url. Inr [s18, s137, s22, s43]),
      yt_title = (\<lambda>url. Inr ''My: Video?''),
      stream_download = (\<lambda>video dir name. None),
      download_visible = (\<lambda>p n. 2 \<le> n),
      path_exists = (\<lambda>p. p = ''youtube_videos/My Video.mp4''),
      open_clip = (\<lambda>p. Inr 150),
      makedirs = (\<lambda>p. None),
      write_segment = (\<lambda>s e p. None)\<rparr>"

text \<open>
  In \<open>elsewhere_world\<close> the file the script looks for never shows up, while every other
  path is there from the first look.
\<close>

definition elsewhere_world :: world where
  "elsewhere_world =
     demo_world\<lparr>download_visible := (\<lambda>p n. p \<noteq> ''youtube_videos/My Video.mp4'')\<rparr>"

definition no_stream_world :: world where
  "no_stream_world = demo_world\<lparr>yt_streams := (\<lambda>url. Inr [s137, s43])\<rparr>"

definition marks_world :: world where
  "marks_world = demo_world\<lparr>yt_title := (\<lambda>url. Inr ''??''), download_visible := (\<lambda>p n. True)\<rparr>"

text \<open>
  Two streams that tie on the resolution, one that reports no resolution, a world whose
  only progressive mp4 stream reports no resolution, a world with the tie, and a world in
  which writing the second segment fails.
\<close>

definition tie_a :: stream where
  "tie_a = \<lparr>itag = 1, is_progressive = True, subtype = ''mp4'', resolution = Some 720\<rparr>"

definition tie_b :: stream where
  "tie_b = \<lparr>itag = 2, is_progressive = True, subtype = ''mp4'', resolution = Some 720\<rparr>"

definition no_res :: stream where
  "no_res = \<lparr>itag = 3, is_progressive = True, subtype = ''mp4'', resolution = None\<rparr>"

definition no_res_world :: world where
  "no_res_world = demo_world\<lparr>yt_streams := (\<lambda>url. Inr [no_res, s43])\<rparr>"

definition tie_world :: world where
  "tie_world = demo_world\<lparr>yt_streams := (\<lambda>url. Inr [tie_a, s18, tie_b, s137])\<rparr>"

definition fail_world :: world where
  "fail_world = demo_world\<lparr>write_segment :=
     (\<lambda>s e p. if p = ''trimmed_videos/My Video/part_2.mp4'' then Some ''encoder failed'' else None)\<rparr>"

section \<open>Properties\<close>

subsection \<open>File names\<close>

lemma re_sub_class_empty: "re_sub_class cls [] s = filter (\<lambda>c. c \<notin> set cls) s"
  by (induction s) (simp_all add: re_sub_class_def)

lemma sanitize_filename_filter:
  "sanitize_filename s = filter (\<lambda>c. c \<notin> set forbidden_chars) s"
  by (simp add: sanitize_filename_def re_sub_class_empty)

lemma sanitize_filename_chars:
  "sanitize_filename s =
     filter (\<lambda>c. c \<notin> {CHR ''<'', CHR ''>'', CHR '':'', CHR 0x22, CHR ''/'', CHR 0x5C,
                        CHR ''|'', CHR ''?'', CHR ''*''}) s"
  by (simp add: sanitize_filename_filter forbidden_chars_def)

text \<open>
  Claim C3. Sanitizing twice is sanitizing once. \<open>sanitize_filename\<close> is the filter that
  drops the nine characters less-than, greater-than, colon, double quote (0x22), slash,
  backslash (0x5C), bar, question mark and star: it removes exactly these and keeps the
  others in their order, so the characters of the result are those of the input without
  the nine. The title \<open>My: Video?\<close> becomes \<open>My Video\<close>; the string of the nine characters
  becomes empty; a string with each of the nine between other characters loses exactly
  the nine.
\<close>

theorem sanitize_filename_idempotent_exact:
  "sanitize_filename (sanitize_filename s) = sanitize_filename s
   \<and> sanitize_filename s =
       filter (\<lambda>c. c \<notin> {CHR ''<'', CHR ''>'', CHR '':'', CHR 0x22, CHR ''/'', CHR 0x5C,
                          CHR ''|'', CHR ''?'', CHR ''*''}) s
   \<and> set (sanitize_filename s) =
       set s - {CHR ''<'', CHR ''>'', CHR '':'', CHR 0x22, CHR ''/'', CHR 0x5C,
                CHR ''|'', CHR ''?'', CHR ''*''}
   \<and> sanitize_filename ''My: Video?'' = ''My Video''
   \<and> sanitize_filename [CHR ''<'', CHR ''>'', CHR '':'', CHR 0x22, CHR ''/'', CHR 0x5C,
                         CHR ''|'', CHR ''?'', CHR ''*''] = []
   \<and> sanitize_filename
        [CHR ''a'', CHR ''<'', CHR ''b'', CHR ''>'', CHR ''c'', CHR '':'', CHR ''d'', CHR 0x22,
         CHR ''e'', CHR ''/'', CHR ''f'', CHR 0x5C, CHR ''g'', CHR ''|'', CHR ''h'', CHR ''?'',
         CHR ''i'', CHR ''*'', CHR ''j'', CHR '' '', CHR ''.'', CHR ''-'']
       = ''abcdefghij .-''"
proof -
  have a: "sanitize_filename (sanitize_filename s) = sanitize_filename s"
    by (simp add: sanitize_filename_filter)
  have b: "set (sanitize_filename s) =
       set s - {CHR ''<'', CHR ''>'', CHR '':'', CHR 0x22, CHR ''/'', CHR 0x5C,
                CHR ''|'', CHR ''?'', CHR ''*''}"
    unfolding sanitize_filename_chars by auto
  have c: "sanitize_filename ''My: Video?'' = ''My Video''"
    by (simp add: sanitize_filename_chars)
  have d: "sanitize_filename [CHR ''<'', CHR ''>'', CHR '':'', CHR 0x22, CHR ''/'', CHR 0x5C,
                         CHR ''|'', CHR ''?'', CHR ''*''] = []"
    by (simp add: sanitize_filename_chars)
  have e: "sanitize_filename
        [CHR ''a'', CHR ''<'', CHR ''b'', CHR ''>'', CHR ''c'', CHR '':'', CHR ''d'', CHR 0x22,
         CHR ''e'', CHR ''/'', CHR ''f'', CHR 0x5C, CHR ''g'', CHR ''|'', CHR ''h'', CHR ''?'',
         CHR ''i'', CHR ''*'', CHR ''j'', CHR '' '', CHR ''.'', CHR ''-'']
       = ''abcdefghij .-''"
    by (simp add: sanitize_filename_chars)
  from a b c d e sanitize_filename_chars [of s] show ?thesis by blast
qed

subsection \<open>download_youtube_video\<close>

lemma wait_for_file_bounds:
  "attempts \<le> max_attempts \<Longrightarrow>
   attempts \<le> wait_for_file ex attempts \<and> wait_for_file ex attempts \<le> max_attempts"
proof (induction ex attempts rule: wait_for_file.induct)
  case (1 ex attempts)
  show ?case
  proof (cases "\<not> ex attempts \<and> attempts < max_attempts")
    case True
    then have "attempts + 1 \<le> max_attempts" by simp
    from "1.IH" [OF True this] True show ?thesis
      by (subst (1 2) wait_for_file.simps) simp
  next
    case False
    with "1.prems" show ?thesis
      by (subst (1 2) wait_for_file.simps) auto
  qed
qed

lemma wait_for_file_absent:
  "\<forall>n\<le>max_attempts. \<not> ex n \<Longrightarrow> attempts \<le> max_attempts
   \<Longrightarrow> wait_for_file ex attempts = max_attempts"
proof (induction ex attempts rule: wait_for_file.induct)
  case (1 ex attempts)
  show ?case
  proof (cases "attempts < max_attempts")
    case True
    with "1.prems" have c: "\<not> ex attempts \<and> attempts < max_attempts" by simp
    from True have "attempts + 1 \<le> max_attempts" by simp
    from "1.IH" [OF c "1.prems"(1) this] c show ?thesis
      by (subst wait_for_file.simps) simp
  next
    case False
    with "1.prems" show ?thesis
      by (subst wait_for_file.simps) auto
  qed
qed

lemma wait_for_file_first:
  "attempts \<le> max_attempts \<Longrightarrow>
   (\<forall>n. attempts \<le> n \<and> n < wait_for_file ex attempts \<longrightarrow> \<not> ex n)
   \<and> (wait_for_file ex attempts < max_attempts \<longrightarrow> ex (wait_for_file ex attempts))"
proof (induction ex attempts rule: wait_for_file.induct)
  case (1 ex attempts)
  show ?case
  proof (cases "\<not> ex attempts \<and> attempts < max_attempts")
    case True
    then have le: "attempts + 1 \<le> max_attempts" by simp
    have eq: "wait_for_file ex attempts = wait_for_file ex (attempts + 1)"
      using True by (subst wait_for_file.simps) simp
    note ih = "1.IH" [OF True le]
    show ?thesis
      unfolding eq
    proof (intro conjI allI impI)
      fix n assume n: "attempts \<le> n \<and> n < wait_for_file ex (attempts + 1)"
      show "\<not> ex n"
      proof (cases "n = attempts")
        case True
        with \<open>\<not> ex attempts \<and> attempts < max_attempts\<close> show ?thesis by simp
      next
        case False
        with n have "attempts + 1 \<le> n \<and> n < wait_for_file ex (attempts + 1)" by simp
        with ih show ?thesis by blast
      qed
    next
      assume "wait_for_file ex (attempts + 1) < max_attempts"
      with ih show "ex (wait_for_file ex (attempts + 1))" by blast
    qed
  next
    case False
    then have eq: "wait_for_file ex attempts = attempts"
      by (subst wait_for_file.simps) auto
    from False show ?thesis unfolding eq by auto
  qed
qed

lemma wait_for_file_spec:
  "wait_for_file ex 0 \<le> max_attempts
   \<and> (\<forall>n<wait_for_file ex 0. \<not> ex n)
   \<and> (wait_for_file ex 0 < max_attempts \<longrightarrow> ex (wait_for_file ex 0))"
  using wait_for_file_first [of 0 ex] wait_for_file_bounds [of 0 ex] by simp

lemma wait_for_file_eq:
  assumes "k \<le> max_attempts" and "\<forall>n<k. \<not> ex n" and "k < max_attempts \<longrightarrow> ex k"
  shows "wait_for_file ex 0 = k"
proof -
  let ?j = "wait_for_file ex 0"
  note s = wait_for_file_spec [of ex]
  have "\<not> ?j < k"
  proof
    assume a: "?j < k"
    with assms(1) have "?j < max_attempts" by simp
    with s have "ex ?j" by blast
    with assms(2) a show False by blast
  qed
  moreover have "\<not> k < ?j"
  proof
    assume a: "k < ?j"
    with s have "k < max_attempts" by linarith
    with assms(3) have "ex k" by blast
    with s a show False by blast
  qed
  ultimately show ?thesis by linarith
qed

lemma download_sleeps:
  "\<exists>k\<le>max_attempts. sleeps (snd (download_youtube_video w url st)) = sleeps st @ replicate k 1"
proof -
  have b: "wait_for_file ex 0 \<le> max_attempts" for ex
    using wait_for_file_bounds [of 0 ex] by simp
  have z: "\<exists>k\<le>max_attempts. xs = xs @ replicate k (1::nat)" for xs
    by (rule exI [of _ 0]) simp
  show ?thesis
    unfolding download_youtube_video_def
    by (auto simp: st_error_def Let_def z b split: sum.splits option.splits)
qed

lemma process_video_no_download:
  "fst (download_youtube_video w url st) = (None, None) \<Longrightarrow>
   process_video w url seg st = ([], if url = [] then st_warning ''Please enter a YouTube video URL'' st else snd (download_youtube_video w url st))"
  unfolding process_video_def
  by (cases "download_youtube_video w url st") (auto)

lemma download_written:
  "written (snd (download_youtube_video w url st)) = written st
   \<and> subclips (snd (download_youtube_video w url st)) = subclips st"
  unfolding download_youtube_video_def
  by (auto simp: st_error_def Let_def split: sum.splits option.splits)

lemma process_video_written:
  "fst (download_youtube_video w url st) = (None, None) \<Longrightarrow>
   fst (process_video w url seg st) = []
   \<and> written (snd (process_video w url seg st)) = written st
   \<and> subclips (snd (process_video w url seg st)) = subclips st"
  by (simp add: process_video_no_download download_written st_warning_def)

lemma sanitize_not_slash: "hd (sanitize_filename t @ ''.mp4'') \<noteq> CHR ''/''"
proof (cases "sanitize_filename t")
  case Nil
  then show ?thesis by simp
next
  case (Cons c cs)
  then have "c \<in> set (sanitize_filename t)" by simp
  then have "c \<notin> set forbidden_chars" by (simp add: sanitize_filename_filter)
  then have "c \<noteq> CHR ''/''" by (auto simp: forbidden_chars_def)
  with Cons show ?thesis by simp
qed

lemma join_youtube_videos:
  "os_path_join ''youtube_videos'' (sanitize_filename t @ ''.mp4'')
     = ''youtube_videos/'' @ sanitize_filename t @ ''.mp4''"
  using sanitize_not_slash [of t] by (simp add: os_path_join_def)

lemma output_path_of_eq:
  "output_path_of title = ''youtube_videos/'' @ sanitize_filename title @ ''.mp4''"
  by (simp add: output_path_of_def join_youtube_videos)

lemma download_outcome:
  assumes "transfer_returned w url" and "yt_title w url = Inr title"
  shows "download_youtube_video w url st =
     (if download_visible w (output_path_of title)
           (wait_for_file (download_visible w (output_path_of title)) 0 + 1)
      then ((Some (output_path_of title), Some (sanitize_filename title)),
            st\<lparr>downloads := downloads (snd (download_youtube_video w url st)),
               sleeps := sleeps st @ replicate
                  (wait_for_file (download_visible w (output_path_of title)) 0) 1\<rparr>)
      else ((None, None),
            st\<lparr>downloads := downloads (snd (download_youtube_video w url st)),
               sleeps := sleeps st @ replicate
                  (wait_for_file (download_visible w (output_path_of title)) 0) 1,
               errors := errors st @ [''Download failed - file not created'']\<rparr>))"
  using assms
  unfolding download_youtube_video_def transfer_returned_def output_path_of_def
  by (auto simp: st_error_def Let_def split: sum.splits option.splits)

lemma download_poll:
  assumes ret: "transfer_returned w url" and t: "yt_title w url = Inr title"
  shows "\<exists>k\<le>max_attempts.
           sleeps (snd (download_youtube_video w url st)) = sleeps st @ replicate k 1
           \<and> (\<forall>n<k. \<not> download_visible w (output_path_of title) n)
           \<and> (k < max_attempts \<longrightarrow> download_visible w (output_path_of title) k)
           \<and> (download_visible w (output_path_of title) (k + 1) \<longrightarrow>
                fst (download_youtube_video w url st)
                  = (Some (output_path_of title), Some (sanitize_filename title))
                \<and> errors (snd (download_youtube_video w url st)) = errors st)
           \<and> (\<not> download_visible w (output_path_of title) (k + 1) \<longrightarrow>
                fst (download_youtube_video w url st) = (None, None)
                \<and> errors (snd (download_youtube_video w url st))
                    = errors st @ [''Download failed - file not created''])"
proof -
  let ?ex = "download_visible w (output_path_of title)"
  let ?k = "wait_for_file ?ex 0"
  note s = wait_for_file_spec [of ?ex]
  note o = download_outcome [OF ret t, of st]
  have sl: "sleeps (snd (download_youtube_video w url st)) = sleeps st @ replicate ?k 1"
    by (subst o) simp
  have ok: "?ex (?k + 1) \<longrightarrow>
          fst (download_youtube_video w url st)
            = (Some (output_path_of title), Some (sanitize_filename title))
          \<and> errors (snd (download_youtube_video w url st)) = errors st"
  proof
    assume "?ex (?k + 1)"
    then have v: "?ex (Suc ?k)" by simp
    show "fst (download_youtube_video w url st)
            = (Some (output_path_of title), Some (sanitize_filename title))
          \<and> errors (snd (download_youtube_video w url st)) = errors st"
      by (subst (1 2) o) (simp add: v)
  qed
  have bad: "\<not> ?ex (?k + 1) \<longrightarrow>
          fst (download_youtube_video w url st) = (None, None)
          \<and> errors (snd (download_youtube_video w url st))
              = errors st @ [''Download failed - file not created'']"
  proof
    assume "\<not> ?ex (?k + 1)"
    then have v: "\<not> ?ex (Suc ?k)" by simp
    show "fst (download_youtube_video w url st) = (None, None)
          \<and> errors (snd (download_youtube_video w url st))
              = errors st @ [''Download failed - file not created'']"
      by (subst (1 2) o) (simp add: v)
  qed
  from s sl ok bad show ?thesis by blast
qed

lemma download_absent_path:
  assumes ret: "transfer_returned w url" and t: "yt_title w url = Inr title"
    and absent: "\<forall>n\<le>max_attempts + 1. \<not> download_visible w (output_path_of title) n"
  shows "fst (download_youtube_video w url st) = (None, None)"
    and "errors (snd (download_youtube_video w url st))
           = errors st @ [''Download failed - file not created'']"
    and "sleeps (snd (download_youtube_video w url st)) = sleeps st @ replicate max_attempts 1"
proof -
  let ?ex = "download_visible w (output_path_of title)"
  have k: "wait_for_file ?ex 0 = max_attempts"
    using absent by (intro wait_for_file_absent) simp_all
  have v: "\<not> ?ex (Suc max_attempts)" using absent by simp
  note o = download_outcome [OF ret t, of st, unfolded k]
  show "fst (download_youtube_video w url st) = (None, None)"
    by (subst o) (simp add: v)
  show "errors (snd (download_youtube_video w url st))
           = errors st @ [''Download failed - file not created'']"
    by (subst o) (simp add: v)
  show "sleeps (snd (download_youtube_video w url st)) = sleeps st @ replicate max_attempts 1"
    by (subst o) (simp add: v)
qed

lemma download_appears:
  assumes ret: "transfer_returned w url" and t: "yt_title w url = Inr title"
    and m: "m \<le> max_attempts + 1"
    and before: "\<forall>n<m. \<not> download_visible w (output_path_of title) n"
    and after: "\<forall>n. m \<le> n \<and> n \<le> max_attempts + 1 \<longrightarrow> download_visible w (output_path_of title) n"
  shows "fst (download_youtube_video w url st)
           = (Some (output_path_of title), Some (sanitize_filename title))"
    and "errors (snd (download_youtube_video w url st)) = errors st"
    and "sleeps (snd (download_youtube_video w url st))
           = sleeps st @ replicate (min m max_attempts) 1"
proof -
  let ?ex = "download_visible w (output_path_of title)"
  have k: "wait_for_file ?ex 0 = min m max_attempts"
  proof (rule wait_for_file_eq)
    show "min m max_attempts \<le> max_attempts" by simp
    show "\<forall>n<min m max_attempts. \<not> ?ex n" using before by simp
    show "min m max_attempts < max_attempts \<longrightarrow> ?ex (min m max_attempts)"
      using after by (auto simp: min_def)
  qed
  have "m \<le> min m max_attempts + 1 \<and> min m max_attempts + 1 \<le> max_attempts + 1"
    using m by (auto simp: min_def)
  with after have "?ex (min m max_attempts + 1)" by blast
  then have v: "?ex (Suc (min m max_attempts))" by simp
  note o = download_outcome [OF ret t, of st, unfolded k]
  show "fst (download_youtube_video w url st)
           = (Some (output_path_of title), Some (sanitize_filename title))"
    by (subst o) (simp add: v)
  show "errors (snd (download_youtube_video w url st)) = errors st"
    by (subst o) (simp add: v)
  show "sleeps (snd (download_youtube_video w url st))
           = sleeps st @ replicate (min m max_attempts) 1"
    by (subst o) (simp add: v)
qed

lemma select_demo: "select_stream [s18, s137, s22, s43] = Some s22"
  by (simp add: select_stream_def first_def desc_def order_by_resolution_def
      filter_streams_def res_key_def s18_def s22_def s137_def s43_def)

lemma output_path_demo: "output_path_of ''My: Video?'' = ''youtube_videos/My Video.mp4''"
  by (simp add: output_path_of_eq sanitize_filename_filter forbidden_chars_def)

lemma demo_returned:
  "transfer_returned demo_world ''u''" "yt_title demo_world ''u'' = Inr ''My: Video?''"
  "transfer_returned elsewhere_world ''u''" "yt_title elsewhere_world ''u'' = Inr ''My: Video?''"
  by (simp_all add: transfer_returned_def demo_world_def elsewhere_world_def
      select_demo)

lemma join_demo:
  "os_path_join ''youtube_videos'' (sanitize_filename ''My: Video?'' @ ''.mp4'')
     = ''youtube_videos/My Video.mp4''"
  "sanitize_filename ''My: Video?'' = ''My Video''"
  "os_path_join ''youtube_videos'' ''My Video.mp4'' = ''youtube_videos/My Video.mp4''"
  by (simp_all add: os_path_join_def sanitize_filename_filter forbidden_chars_def)

text \<open>
  Claim C5. The loop sleeps at most \<open>max_attempts = 10\<close> times, one second each time, in
  every run. When the transfer call has returned, the loop looks for the output file, the
  join of \<open>youtube_videos\<close> with the sanitized title plus \<open>.mp4\<close>, and for no other path: it
  sleeps \<open>k\<close> times where the file was absent at the looks \<open>0\<close> to \<open>k - 1\<close>, and it stops
  before the bound only because the file is there at look \<open>k\<close>. The look after the loop
  decides: with the file there the pair of path and name is returned and nothing is
  reported, with the file absent the function reports \<open>Download failed - file not created\<close>
  and returns \<open>(None, None)\<close>. When the output file is absent at every look the script
  makes (0 to 11), whatever other paths exist, there are ten sleeps, the failure is
  reported, and the run of the button handler shows no segment, cuts none and writes none.
\<close>

theorem download_poll_bounded:
  "max_attempts = 10
   \<and> (\<exists>k\<le>max_attempts.
        sleeps (snd (download_youtube_video w url st)) = sleeps st @ replicate k 1)
   \<and> (transfer_returned w url \<and> yt_title w url = Inr title \<longrightarrow>
        (\<exists>k\<le>max_attempts.
           sleeps (snd (download_youtube_video w url st)) = sleeps st @ replicate k 1
           \<and> (\<forall>n<k. \<not> download_visible w (output_path_of title) n)
           \<and> (k < max_attempts \<longrightarrow> download_visible w (output_path_of title) k)
           \<and> (download_visible w (output_path_of title) (k + 1) \<longrightarrow>
                fst (download_youtube_video w url st)
                  = (Some (output_path_of title), Some (sanitize_filename title))
                \<and> errors (snd (download_youtube_video w url st)) = errors st)
           \<and> (\<not> download_visible w (output_path_of title) (k + 1) \<longrightarrow>
                fst (download_youtube_video w url st) = (None, None)
                \<and> errors (snd (download_youtube_video w url st))
                    = errors st @ [''Download failed - file not created''])))
   \<and> (transfer_returned w url \<and> yt_title w url = Inr title
        \<and> (\<forall>n\<le>max_attempts + 1. \<not> download_visible w (output_path_of title) n) \<longrightarrow>
        fst (download_youtube_video w url st) = (None, None)
        \<and> errors (snd (download_youtube_video w url st))
            = errors st @ [''Download failed - file not created'']
        \<and> sleeps (snd (download_youtube_video w url st)) = sleeps st @ replicate 10 1
        \<and> fst (process_video w url segment_duration st) = []
        \<and> written (snd (process_video w url segment_duration st)) = written st
        \<and> subclips (snd (process_video w url segment_duration st)) = subclips st)"
proof -
  have a: "max_attempts = 10" by (simp add: max_attempts_def)
  have b: "\<exists>k\<le>max_attempts.
        sleeps (snd (download_youtube_video w url st)) = sleeps st @ replicate k 1"
    by (rule download_sleeps)
  have c: "transfer_returned w url \<and> yt_title w url = Inr title \<longrightarrow>
        (\<exists>k\<le>max_attempts.
           sleeps (snd (download_youtube_video w url st)) = sleeps st @ replicate k 1
           \<and> (\<forall>n<k. \<not> download_visible w (output_path_of title) n)
           \<and> (k < max_attempts \<longrightarrow> download_visible w (output_path_of title) k)
           \<and> (download_visible w (output_path_of title) (k + 1) \<longrightarrow>
                fst (download_youtube_video w url st)
                  = (Some (output_path_of title), Some (sanitize_filename title))
                \<and> errors (snd (download_youtube_video w url st)) = errors st)
           \<and> (\<not> download_visible w (output_path_of title) (k + 1) \<longrightarrow>
                fst (download_youtube_video w url st) = (None, None)
                \<and> errors (snd (download_youtube_video w url st))
                    = errors st @ [''Download failed - file not created'']))"
    using download_poll [of w url title st] by blast
  have d: "transfer_returned w url \<and> yt_title w url = Inr title
        \<and> (\<forall>n\<le>max_attempts + 1. \<not> download_visible w (output_path_of title) n) \<longrightarrow>
        fst (download_youtube_video w url st) = (None, None)
        \<and> errors (snd (download_youtube_video w url st))
            = errors st @ [''Download failed - file not created'']
        \<and> sleeps (snd (download_youtube_video w url st)) = sleeps st @ replicate 10 1
        \<and> fst (process_video w url segment_duration st) = []
        \<and> written (snd (process_video w url segment_duration st)) = written st
        \<and> subclips (snd (process_video w url segment_duration st)) = subclips st"
  proof
    assume h: "transfer_returned w url \<and> yt_title w url = Inr title
        \<and> (\<forall>n\<le>max_attempts + 1. \<not> download_visible w (output_path_of title) n)"
    then have h1: "transfer_returned w url" and h2: "yt_title w url = Inr title"
      and h3: "\<forall>n\<le>max_attempts + 1. \<not> download_visible w (output_path_of title) n"
      by simp_all
    note r = download_absent_path [OF h1 h2 h3, of st]
    from r(3) have s: "sleeps (snd (download_youtube_video w url st)) = sleeps st @ replicate 10 1"
      by (simp add: max_attempts_def)
    from r(1,2) s process_video_written [OF r(1), of segment_duration]
    show "fst (download_youtube_video w url st) = (None, None)
        \<and> errors (snd (download_youtube_video w url st))
            = errors st @ [''Download failed - file not created'']
        \<and> sleeps (snd (download_youtube_video w url st)) = sleeps st @ replicate 10 1
        \<and> fst (process_video w url segment_duration st) = []
        \<and> written (snd (process_video w url segment_duration st)) = written st
        \<and> subclips (snd (process_video w url segment_duration st)) = subclips st"
      by blast
  qed
  from a b c d show ?thesis by blast
qed

theorem download_poll_bounded_witness:
  "(transfer_returned elsewhere_world ''u'' \<and> yt_title elsewhere_world ''u'' = Inr ''My: Video?'')
   \<and> output_path_of ''My: Video?'' = ''youtube_videos/My Video.mp4''
   \<and> download_visible elsewhere_world ''youtube_videos/other.mp4'' 0
   \<and> \<not> (\<exists>n. download_visible elsewhere_world (output_path_of ''My: Video?'') n)
   \<and> fst (download_youtube_video elsewhere_world ''u'' app0) = (None, None)
   \<and> errors (snd (download_youtube_video elsewhere_world ''u'' app0))
       = [''Download failed - file not created'']
   \<and> sleeps (snd (download_youtube_video elsewhere_world ''u'' app0)) = replicate 10 1
   \<and> fst (process_video elsewhere_world ''u'' 60 app0) = []
   \<and> written (snd (process_video elsewhere_world ''u'' 60 app0)) = []
   \<and> (transfer_returned demo_world ''u'' \<and> yt_title demo_world ''u'' = Inr ''My: Video?'')
   \<and> \<not> download_visible demo_world (output_path_of ''My: Video?'') 0
   \<and> \<not> download_visible demo_world (output_path_of ''My: Video?'') 1
   \<and> download_visible demo_world (output_path_of ''My: Video?'') 2
   \<and> download_visible demo_world (output_path_of ''My: Video?'') 3
   \<and> sleeps (snd (download_youtube_video demo_world ''u'' app0)) = [1, 1]
   \<and> (\<exists>k\<le>max_attempts.
        sleeps (snd (download_youtube_video demo_world ''u'' app0)) = sleeps app0 @ replicate k 1
        \<and> k = 2
        \<and> fst (download_youtube_video demo_world ''u'' app0)
            = (Some ''youtube_videos/My Video.mp4'', Some ''My Video''))"
proof -
  have h1: "transfer_returned elsewhere_world ''u'' \<and> yt_title elsewhere_world ''u'' = Inr ''My: Video?''"
    by (simp add: demo_returned)
  have h2: "\<forall>n\<le>max_attempts + 1. \<not> download_visible elsewhere_world (output_path_of ''My: Video?'') n"
    by (simp add: elsewhere_world_def output_path_demo)
  have h3: "transfer_returned demo_world ''u'' \<and> yt_title demo_world ''u'' = Inr ''My: Video?''"
    by (simp add: demo_returned)
  have v: "download_visible elsewhere_world ''youtube_videos/other.mp4'' 0"
    "\<not> (\<exists>n. download_visible elsewhere_world (output_path_of ''My: Video?'') n)"
    "\<not> download_visible demo_world (output_path_of ''My: Video?'') 0"
    "\<not> download_visible demo_world (output_path_of ''My: Video?'') 1"
    "download_visible demo_world (output_path_of ''My: Video?'') 2"
    "download_visible demo_world (output_path_of ''My: Video?'') 3"
    by (simp_all add: elsewhere_world_def demo_world_def output_path_demo)
  note e = download_poll_bounded [of elsewhere_world "''u''" app0 "''My: Video?''" 60]
  note d = download_poll_bounded [of demo_world "''u''" app0 "''My: Video?''" 60]
  from d h3 obtain k where k: "k \<le> max_attempts"
    "sleeps (snd (download_youtube_video demo_world ''u'' app0)) = sleeps app0 @ replicate k 1"
    "\<forall>n<k. \<not> download_visible demo_world (output_path_of ''My: Video?'') n"
    "k < max_attempts \<longrightarrow> download_visible demo_world (output_path_of ''My: Video?'') k"
    "download_visible demo_world (output_path_of ''My: Video?'') (k + 1) \<longrightarrow>
       fst (download_youtube_video demo_world ''u'' app0)
         = (Some (output_path_of ''My: Video?''), Some (sanitize_filename ''My: Video?''))"
    by blast
  have k2: "k = 2"
  proof -
    from k(3) v(5) have "\<not> 2 < k" by blast
    moreover have "\<not> k < 2"
    proof
      assume "k < 2"
      with k(4) have "download_visible demo_world (output_path_of ''My: Video?'') k"
        by (simp add: max_attempts_def)
      then show False using \<open>k < 2\<close> by (simp add: demo_world_def)
    qed
    ultimately show ?thesis by linarith
  qed
  have s: "sanitize_filename ''My: Video?'' = ''My Video''"
    by (simp add: sanitize_filename_filter forbidden_chars_def)
  from k(5) k2 v(6) have f: "fst (download_youtube_video demo_world ''u'' app0)
            = (Some ''youtube_videos/My Video.mp4'', Some ''My Video'')"
    by (simp add: output_path_demo s)
  from k(2) k2 have sl: "sleeps (snd (download_youtube_video demo_world ''u'' app0)) = [1, 1]"
    by (simp add: app0_def numeral_2_eq_2)
  have ex: "\<exists>k\<le>max_attempts.
        sleeps (snd (download_youtube_video demo_world ''u'' app0)) = sleeps app0 @ replicate k 1
        \<and> k = 2
        \<and> fst (download_youtube_video demo_world ''u'' app0)
            = (Some ''youtube_videos/My Video.mp4'', Some ''My Video'')"
    using k(1,2) k2 f by blast
  from e h1 h2 have el: "fst (download_youtube_video elsewhere_world ''u'' app0) = (None, None)
   \<and> errors (snd (download_youtube_video elsewhere_world ''u'' app0))
       = [''Download failed - file not created'']
   \<and> sleeps (snd (download_youtube_video elsewhere_world ''u'' app0)) = replicate 10 1
   \<and> fst (process_video elsewhere_world ''u'' 60 app0) = []
   \<and> written (snd (process_video elsewhere_world ''u'' 60 app0)) = []"
    by (simp add: app0_def)
  from el h1 h3 v sl ex output_path_demo show ?thesis by blast
qed

lemma download_result_cases:
  "fst (download_youtube_video w url st) = (None, None)
   \<or> (\<exists>title. yt_title w url = Inr title
         \<and> fst (download_youtube_video w url st)
             = (Some (os_path_join ''youtube_videos'' (sanitize_filename title @ ''.mp4'')),
                Some (sanitize_filename title)))"
  unfolding download_youtube_video_def
  by (auto simp: Let_def split: sum.splits option.splits)

lemma download_not_returned:
  "\<not> transfer_returned w url \<Longrightarrow> fst (download_youtube_video w url st) = (None, None)"
  unfolding download_youtube_video_def transfer_returned_def
  by (auto simp: Let_def split: sum.splits option.splits)

text \<open>
  Claim C9. \<^verbatim>\<open>download_youtube_video\<close> returns \<open>(None, None)\<close>, or the pair of the path and
  the file name, where the path is the join of \<open>youtube_videos\<close> with the sanitized title
  plus \<open>.mp4\<close> (that is \<open>youtube_videos/\<close>, the sanitized title, \<open>.mp4\<close>). One component is
  \<open>None\<close> exactly when the other is. It is \<open>(None, None)\<close> when no stream suits, when the
  lookup, the title or the transfer raises (the transfer call does not return), and when
  the transfer returned but the output file is absent at every look (0 to 11). It is the
  pair of path and name, with nothing reported, when the transfer returned and the output
  file shows up at some look \<open>m\<close> of these and stays.
\<close>

theorem download_returns_pair:
  "(fst (download_youtube_video w url st) = (None, None)
    \<or> (\<exists>title. yt_title w url = Inr title
          \<and> fst (download_youtube_video w url st)
              = (Some (os_path_join ''youtube_videos'' (sanitize_filename title @ ''.mp4'')),
                 Some (sanitize_filename title))
          \<and> os_path_join ''youtube_videos'' (sanitize_filename title @ ''.mp4'')
              = ''youtube_videos/'' @ sanitize_filename title @ ''.mp4''))
   \<and> (fst (fst (download_youtube_video w url st)) = None
        \<longleftrightarrow> snd (fst (download_youtube_video w url st)) = None)
   \<and> ((\<exists>streams. yt_streams w url = Inr streams \<and> select_stream streams = None)
        \<longrightarrow> fst (download_youtube_video w url st) = (None, None))
   \<and> (\<not> transfer_returned w url \<longrightarrow> fst (download_youtube_video w url st) = (None, None))
   \<and> (transfer_returned w url \<and> yt_title w url = Inr title
        \<and> (\<forall>n\<le>max_attempts + 1. \<not> download_visible w
               (os_path_join ''youtube_videos'' (sanitize_filename title @ ''.mp4'')) n)
        \<longrightarrow> fst (download_youtube_video w url st) = (None, None))
   \<and> (transfer_returned w url \<and> yt_title w url = Inr title
        \<and> m \<le> max_attempts + 1
        \<and> (\<forall>n<m. \<not> download_visible w
               (os_path_join ''youtube_videos'' (sanitize_filename title @ ''.mp4'')) n)
        \<and> (\<forall>n. m \<le> n \<and> n \<le> max_attempts + 1 \<longrightarrow> download_visible w
               (os_path_join ''youtube_videos'' (sanitize_filename title @ ''.mp4'')) n)
        \<longrightarrow> fst (download_youtube_video w url st)
              = (Some (os_path_join ''youtube_videos'' (sanitize_filename title @ ''.mp4'')),
                 Some (sanitize_filename title))
            \<and> errors (snd (download_youtube_video w url st)) = errors st)"
proof -
  let ?r = "download_youtube_video w url st"
  let ?p = "\<lambda>title. os_path_join ''youtube_videos'' (sanitize_filename title @ ''.mp4'')"
  have a: "fst ?r = (None, None)
    \<or> (\<exists>title. yt_title w url = Inr title
          \<and> fst ?r = (Some (?p title), Some (sanitize_filename title))
          \<and> ?p title = ''youtube_videos/'' @ sanitize_filename title @ ''.mp4'')"
    using download_result_cases [of w url st] join_youtube_videos by blast
  have b: "fst (fst ?r) = None \<longleftrightarrow> snd (fst ?r) = None"
    using download_result_cases [of w url st] by auto
  have c: "(\<exists>streams. yt_streams w url = Inr streams \<and> select_stream streams = None)
        \<longrightarrow> fst ?r = (None, None)"
  proof
    assume "\<exists>streams. yt_streams w url = Inr streams \<and> select_stream streams = None"
    then have "\<not> transfer_returned w url"
      by (auto simp: transfer_returned_def)
    then show "fst ?r = (None, None)"
      by (rule download_not_returned)
  qed
  have d: "\<not> transfer_returned w url \<longrightarrow> fst ?r = (None, None)"
    using download_not_returned [of w url st] by blast
  have e: "transfer_returned w url \<and> yt_title w url = Inr title
        \<and> (\<forall>n\<le>max_attempts + 1. \<not> download_visible w (?p title) n)
        \<longrightarrow> fst ?r = (None, None)"
    using download_absent_path(1) [of w url title st] by (simp add: output_path_of_def)
  have f: "transfer_returned w url \<and> yt_title w url = Inr title
        \<and> m \<le> max_attempts + 1
        \<and> (\<forall>n<m. \<not> download_visible w (?p title) n)
        \<and> (\<forall>n. m \<le> n \<and> n \<le> max_attempts + 1 \<longrightarrow> download_visible w (?p title) n)
        \<longrightarrow> fst ?r = (Some (?p title), Some (sanitize_filename title))
            \<and> errors (snd ?r) = errors st"
    using download_appears(1,2) [of w url title m st] by (simp add: output_path_of_def)
  from a b c d e f show ?thesis by blast
qed

lemma select_none_demo: "select_stream [s137, s43] = None"
  by (simp add: select_stream_def first_def desc_def order_by_resolution_def
      filter_streams_def s137_def s43_def)

theorem download_returns_pair_witness:
  "(transfer_returned demo_world ''u'' \<and> yt_title demo_world ''u'' = Inr ''My: Video?'')
   \<and> \<not> download_visible demo_world ''youtube_videos/My Video.mp4'' 0
   \<and> \<not> download_visible demo_world ''youtube_videos/My Video.mp4'' 1
   \<and> download_visible demo_world ''youtube_videos/My Video.mp4'' 2
   \<and> download_visible demo_world ''youtube_videos/My Video.mp4'' 3
   \<and> fst (download_youtube_video demo_world ''u'' app0)
       = (Some ''youtube_videos/My Video.mp4'', Some ''My Video'')
   \<and> errors (snd (download_youtube_video demo_world ''u'' app0)) = []
   \<and> (\<exists>streams. yt_streams no_stream_world ''u'' = Inr streams \<and> select_stream streams = None)
   \<and> \<not> transfer_returned no_stream_world ''u''
   \<and> fst (download_youtube_video no_stream_world ''u'' app0) = (None, None)
   \<and> (transfer_returned elsewhere_world ''u'' \<and> yt_title elsewhere_world ''u'' = Inr ''My: Video?'')
   \<and> download_visible elsewhere_world ''youtube_videos/other.mp4'' 0
   \<and> \<not> (\<exists>n. download_visible elsewhere_world ''youtube_videos/My Video.mp4'' n)
   \<and> fst (download_youtube_video elsewhere_world ''u'' app0) = (None, None)"
proof -
  have h0: "transfer_returned demo_world ''u'' \<and> yt_title demo_world ''u'' = Inr ''My: Video?''"
    by (simp add: demo_returned)
  have m: "(2::nat) \<le> max_attempts + 1" by (simp add: max_attempts_def)
  have bf: "\<forall>n<2. \<not> download_visible demo_world
               (os_path_join ''youtube_videos'' (sanitize_filename ''My: Video?'' @ ''.mp4'')) n"
    by (simp add: demo_world_def)
  have af: "\<forall>n. 2 \<le> n \<and> n \<le> max_attempts + 1 \<longrightarrow> download_visible demo_world
               (os_path_join ''youtube_videos'' (sanitize_filename ''My: Video?'' @ ''.mp4'')) n"
    by (simp add: demo_world_def)
  have v: "\<not> download_visible demo_world ''youtube_videos/My Video.mp4'' 0"
    "\<not> download_visible demo_world ''youtube_videos/My Video.mp4'' 1"
    "download_visible demo_world ''youtube_videos/My Video.mp4'' 2"
    "download_visible demo_world ''youtube_videos/My Video.mp4'' 3"
    "download_visible elsewhere_world ''youtube_videos/other.mp4'' 0"
    "\<not> (\<exists>n. download_visible elsewhere_world ''youtube_videos/My Video.mp4'' n)"
    by (simp_all add: demo_world_def elsewhere_world_def)
  have h1: "\<exists>streams. yt_streams no_stream_world ''u'' = Inr streams \<and> select_stream streams = None"
    by (simp add: no_stream_world_def demo_world_def select_none_demo)
  have h2: "\<not> transfer_returned no_stream_world ''u''"
    by (simp add: transfer_returned_def no_stream_world_def demo_world_def select_none_demo)
  have h3: "transfer_returned elsewhere_world ''u'' \<and> yt_title elsewhere_world ''u'' = Inr ''My: Video?''"
    by (simp add: demo_returned)
  have h4: "\<forall>n\<le>max_attempts + 1. \<not> download_visible elsewhere_world
               (os_path_join ''youtube_videos'' (sanitize_filename ''My: Video?'' @ ''.mp4'')) n"
    by (simp add: elsewhere_world_def join_demo)
  from download_returns_pair [of demo_world "''u''" app0 "''My: Video?''" 2] h0 m bf af
  have d: "fst (download_youtube_video demo_world ''u'' app0)
       = (Some ''youtube_videos/My Video.mp4'', Some ''My Video'')
     \<and> errors (snd (download_youtube_video demo_world ''u'' app0)) = []"
    by (simp add: join_demo app0_def)
  from download_returns_pair [of no_stream_world "''u''" app0] h2
  have n: "fst (download_youtube_video no_stream_world ''u'' app0) = (None, None)" by blast
  from download_returns_pair [of elsewhere_world "''u''" app0 "''My: Video?''"] h3 h4
  have e: "fst (download_youtube_video elsewhere_world ''u'' app0) = (None, None)" by blast
  from h0 v d h1 h2 n h3 e show ?thesis by blast
qed

lemma sanitize_all_forbidden: "set t \<subseteq> set forbidden_chars \<Longrightarrow> sanitize_filename t = []"
  by (auto simp: sanitize_filename_filter filter_empty_conv)

text \<open>
  Claim C10. A non-empty title made only of characters of the class sanitizes to the empty
  string. The transfer is then asked for the file name \<open>.mp4\<close> in \<open>youtube_videos\<close>, and
  when the transfer returns and the file is there the function returns the path
  \<open>youtube_videos/.mp4\<close> with the empty file name and reports no error.
\<close>

theorem empty_base_name:
  assumes "title \<noteq> []" and "set title \<subseteq> set forbidden_chars"
  shows "sanitize_filename title = []
    \<and> (yt_streams w url = Inr streams \<and> select_stream streams = Some video
         \<and> yt_title w url = Inr title \<longrightarrow>
        downloads (snd (download_youtube_video w url st))
          = downloads st @ [(video, ''youtube_videos'', ''.mp4'')]
        \<and> (stream_download w video ''youtube_videos'' ''.mp4'' = None
             \<and> (\<forall>n. download_visible w ''youtube_videos/.mp4'' n) \<longrightarrow>
            fst (download_youtube_video w url st) = (Some ''youtube_videos/.mp4'', Some [])
            \<and> errors (snd (download_youtube_video w url st)) = errors st))"
proof -
  have e: "sanitize_filename title = []"
    using assms(2) by (rule sanitize_all_forbidden)
  have j: "os_path_join ''youtube_videos'' ''.mp4'' = ''youtube_videos/.mp4''"
    by (simp add: os_path_join_def)
  show ?thesis
    unfolding download_youtube_video_def
    by (auto simp: e j Let_def st_error_def split: sum.splits option.splits)
qed

theorem empty_base_name_witness:
  "''??'' \<noteq> [] \<and> set ''??'' \<subseteq> set forbidden_chars
   \<and> sanitize_filename ''??'' = []
   \<and> downloads (snd (download_youtube_video marks_world ''u'' app0))
       = [(s22, ''youtube_videos'', ''.mp4'')]
   \<and> fst (download_youtube_video marks_world ''u'' app0) = (Some ''youtube_videos/.mp4'', Some [])
   \<and> errors (snd (download_youtube_video marks_world ''u'' app0)) = []"
proof -
  have h1: "''??'' \<noteq> []" by simp
  have h2: "set ''??'' \<subseteq> set forbidden_chars" by (simp add: forbidden_chars_def)
  have h3: "yt_streams marks_world ''u'' = Inr [s18, s137, s22, s43]
            \<and> select_stream [s18, s137, s22, s43] = Some s22
            \<and> yt_title marks_world ''u'' = Inr ''??''"
    by (simp add: marks_world_def demo_world_def select_demo)
  have h4: "stream_download marks_world s22 ''youtube_videos'' ''.mp4'' = None
            \<and> (\<forall>n. download_visible marks_world ''youtube_videos/.mp4'' n)"
    by (simp add: marks_world_def demo_world_def)
  from empty_base_name [OF h1 h2, of marks_world "''u''" "[s18, s137, s22, s43]" s22 app0] h1 h2 h3 h4
  show ?thesis by (simp add: app0_def)
qed

subsection \<open>Choosing the stream\<close>

lemma last_filter_holds: "ys \<noteq> [] \<Longrightarrow> P (last ys) \<Longrightarrow> last (filter P ys) = last ys"
  by (induction ys rule: rev_induct) simp_all

lemma last_sort_key_max:
  assumes "xs \<noteq> []"
  shows "\<forall>x\<in>set xs. f x \<le> f (last (sort_key f xs))"
proof -
  let ?ys = "sort_key f xs"
  from assms have ne: "?ys \<noteq> []" by (metis length_sort length_0_conv)
  then obtain zs z where ys: "?ys = zs @ [z]" by (metis rev_exhaust)
  have "sorted (map f ?ys)" by (rule sorted_sort_key)
  with ys have "\<forall>x\<in>set zs. f x \<le> f z" by (simp add: sorted_append)
  with ys have "\<forall>x\<in>set ?ys. f x \<le> f (last ?ys)" by auto
  then show ?thesis by simp
qed

lemma last_sort_key_stable:
  assumes "xs \<noteq> []"
  shows "last (sort_key f xs) = last (filter (\<lambda>x. f x = f (last (sort_key f xs))) xs)"
proof -
  let ?ys = "sort_key f xs"
  let ?k = "f (last ?ys)"
  from assms have ne: "?ys \<noteq> []" by (metis length_sort length_0_conv)
  have "last (filter (\<lambda>x. f x = ?k) ?ys) = last ?ys"
    using ne by (rule last_filter_holds) simp
  then show ?thesis by (simp add: sort_key_stable)
qed

lemma first_desc: "first (desc zs) = (if zs = [] then None else Some (last zs))"
  by (cases zs rule: rev_cases) (simp_all add: first_def desc_def)

lemma order_by_candidates:
  "order_by_resolution (filter_streams True ''mp4'' ss) = sort_key res_key (candidates ss)"
  by (simp add: order_by_resolution_def filter_streams_def candidates_def conj_commute conj_left_commute)

lemma select_stream_eq:
  "select_stream ss =
     (if candidates ss = [] then None else Some (last (sort_key res_key (candidates ss))))"
proof -
  have "sort_key res_key (candidates ss) = [] \<longleftrightarrow> candidates ss = []"
    by (metis length_sort length_0_conv)
  then show ?thesis
    by (simp add: select_stream_def order_by_candidates first_desc)
qed

lemma res_key_eq_iff:
  "s \<in> set (candidates ss) \<Longrightarrow> t \<in> set (candidates ss)
   \<Longrightarrow> res_key t = res_key s \<longleftrightarrow> resolution t = resolution s"
  by (auto simp: candidates_def res_key_def)

lemma filter_cong_set: "(\<And>x. x \<in> set xs \<Longrightarrow> P x = Q x) \<Longrightarrow> filter P xs = filter Q xs"
  by (rule filter_cong) simp_all

lemma select_stream_some:
  assumes ne: "candidates ss \<noteq> []"
  shows "\<exists>v. select_stream ss = Some v \<and> v \<in> set (candidates ss)
           \<and> (\<forall>t\<in>set (candidates ss). res_key t \<le> res_key v)
           \<and> v = last (filter (\<lambda>t. resolution t = resolution v) (candidates ss))"
proof -
  let ?c = "candidates ss"
  let ?v = "last (sort_key res_key ?c)"
  have sel: "select_stream ss = Some ?v" using ne by (simp add: select_stream_eq)
  have "sort_key res_key ?c \<noteq> []" using ne by (metis length_sort length_0_conv)
  then have "?v \<in> set (sort_key res_key ?c)" by (rule last_in_set)
  then have mem: "?v \<in> set ?c" by simp
  have mx: "\<forall>t\<in>set ?c. res_key t \<le> res_key ?v" using ne by (rule last_sort_key_max)
  have "filter (\<lambda>t. res_key t = res_key ?v) ?c = filter (\<lambda>t. resolution t = resolution ?v) ?c"
    by (rule filter_cong_set) (rule res_key_eq_iff [OF mem])
  then have lst: "?v = last (filter (\<lambda>t. resolution t = resolution ?v) ?c)"
    using last_sort_key_stable [OF ne, of res_key] by simp
  from sel mem mx lst show ?thesis by blast
qed

lemma download_no_stream:
  "yt_streams w url = Inr ss \<Longrightarrow> select_stream ss = None
   \<Longrightarrow> download_youtube_video w url st
        = ((None, None), st_error ''No suitable video stream found'' st)"
  by (simp add: download_youtube_video_def)

lemma download_chosen:
  assumes "yt_streams w url = Inr streams" and "select_stream streams = Some v"
    and "yt_title w url = Inr title"
  shows "downloads (snd (download_youtube_video w url st))
           = downloads st @ [(v, ''youtube_videos'', sanitize_filename title @ ''.mp4'')]"
  using assms unfolding download_youtube_video_def
  by (auto simp: Let_def st_error_def split: option.splits)

text \<open>
  Claim C7, as the code has it. The candidates are the streams that are progressive, mp4
  and report a resolution. When there is one, the query chooses a candidate of the highest
  resolution among them, and on a tie the one the host reports last: it is the last stream
  of that resolution among the candidates; this stream is the one
  \<^verbatim>\<open>download_youtube_video\<close> asks the transfer for. When there is no candidate nothing is
  chosen, and \<^verbatim>\<open>download_youtube_video\<close> reports \<open>No suitable video stream found\<close> and
  returns \<open>(None, None)\<close>: so when no stream is both progressive and mp4, and also when the
  progressive mp4 streams report no resolution.
\<close>

theorem select_stream_last_highest:
  "(candidates streams \<noteq> [] \<longrightarrow>
      (\<exists>v. select_stream streams = Some v \<and> v \<in> set (candidates streams)
           \<and> (\<forall>t\<in>set (candidates streams). res_key t \<le> res_key v)
           \<and> v = last (filter (\<lambda>t. resolution t = resolution v) (candidates streams))))
   \<and> (candidates streams = [] \<longrightarrow> select_stream streams = None)
   \<and> (yt_streams w url = Inr streams \<and> candidates streams = [] \<longrightarrow>
        download_youtube_video w url st
          = ((None, None), st_error ''No suitable video stream found'' st))
   \<and> ((\<forall>s\<in>set streams. \<not> (is_progressive s \<and> subtype s = ''mp4''))
        \<and> yt_streams w url = Inr streams \<longrightarrow>
        download_youtube_video w url st
          = ((None, None), st_error ''No suitable video stream found'' st))
   \<and> (yt_streams w url = Inr streams \<and> candidates streams \<noteq> []
        \<and> yt_title w url = Inr title \<longrightarrow>
        (\<exists>v. select_stream streams = Some v
           \<and> downloads (snd (download_youtube_video w url st))
               = downloads st @ [(v, ''youtube_videos'', sanitize_filename title @ ''.mp4'')]))"
proof -
  have a: "candidates streams \<noteq> [] \<longrightarrow>
      (\<exists>v. select_stream streams = Some v \<and> v \<in> set (candidates streams)
           \<and> (\<forall>t\<in>set (candidates streams). res_key t \<le> res_key v)
           \<and> v = last (filter (\<lambda>t. resolution t = resolution v) (candidates streams)))"
    using select_stream_some [of streams] by blast
  have b: "candidates streams = [] \<longrightarrow> select_stream streams = None"
    by (simp add: select_stream_eq)
  have c: "yt_streams w url = Inr streams \<and> candidates streams = [] \<longrightarrow>
        download_youtube_video w url st
          = ((None, None), st_error ''No suitable video stream found'' st)"
    using b download_no_stream [of w url streams st] by blast
  have d: "(\<forall>s\<in>set streams. \<not> (is_progressive s \<and> subtype s = ''mp4''))
        \<and> yt_streams w url = Inr streams \<longrightarrow>
        download_youtube_video w url st
          = ((None, None), st_error ''No suitable video stream found'' st)"
  proof
    assume h: "(\<forall>s\<in>set streams. \<not> (is_progressive s \<and> subtype s = ''mp4''))
        \<and> yt_streams w url = Inr streams"
    then have "candidates streams = []"
      by (auto simp: candidates_def filter_empty_conv)
    with h c show "download_youtube_video w url st
          = ((None, None), st_error ''No suitable video stream found'' st)" by blast
  qed
  have e: "yt_streams w url = Inr streams \<and> candidates streams \<noteq> []
        \<and> yt_title w url = Inr title \<longrightarrow>
        (\<exists>v. select_stream streams = Some v
           \<and> downloads (snd (download_youtube_video w url st))
               = downloads st @ [(v, ''youtube_videos'', sanitize_filename title @ ''.mp4'')])"
  proof
    assume h: "yt_streams w url = Inr streams \<and> candidates streams \<noteq> []
        \<and> yt_title w url = Inr title"
    with a obtain v where v: "select_stream streams = Some v" by blast
    from h download_chosen [of w url streams v title st] v
    show "\<exists>v. select_stream streams = Some v
           \<and> downloads (snd (download_youtube_video w url st))
               = downloads st @ [(v, ''youtube_videos'', sanitize_filename title @ ''.mp4'')]"
      by blast
  qed
  from a b c d e show ?thesis by blast
qed

text \<open>
  The claim as it was written says that on a tie the first match wins. Of two progressive
  mp4 streams of 720 lines the query chooses the second. A progressive mp4 stream that
  reports no resolution is not chosen at all.
\<close>

theorem first_match_counterexample:
  "select_stream [tie_a, tie_b] = Some tie_b \<and> tie_a \<noteq> tie_b
   \<and> is_progressive tie_a \<and> subtype tie_a = ''mp4''
   \<and> is_progressive tie_b \<and> subtype tie_b = ''mp4''
   \<and> resolution tie_a = resolution tie_b
   \<and> select_stream [no_res] = None \<and> is_progressive no_res \<and> subtype no_res = ''mp4''"
  by (simp add: select_stream_def first_def desc_def order_by_resolution_def
      filter_streams_def res_key_def tie_a_def tie_b_def no_res_def)

lemma select_tie: "select_stream [tie_a, s18, tie_b, s137] = Some tie_b"
  by (simp add: select_stream_def first_def desc_def order_by_resolution_def
      filter_streams_def res_key_def tie_a_def tie_b_def s18_def s137_def)

theorem select_stream_last_highest_witness:
  "candidates [tie_a, s18, tie_b, s137] \<noteq> []
   \<and> (\<exists>v. select_stream [tie_a, s18, tie_b, s137] = Some v
          \<and> v \<in> set (candidates [tie_a, s18, tie_b, s137])
          \<and> (\<forall>t\<in>set (candidates [tie_a, s18, tie_b, s137]). res_key t \<le> res_key v)
          \<and> v = last (filter (\<lambda>t. resolution t = resolution v)
                        (candidates [tie_a, s18, tie_b, s137])))
   \<and> select_stream [tie_a, s18, tie_b, s137] = Some tie_b
   \<and> yt_streams tie_world ''u'' = Inr [tie_a, s18, tie_b, s137]
   \<and> yt_title tie_world ''u'' = Inr ''My: Video?''
   \<and> downloads (snd (download_youtube_video tie_world ''u'' app0))
       = [(tie_b, ''youtube_videos'', ''My Video.mp4'')]
   \<and> is_progressive no_res \<and> subtype no_res = ''mp4''
   \<and> yt_streams no_res_world ''u'' = Inr [no_res, s43]
   \<and> candidates [no_res, s43] = [] \<and> select_stream [no_res, s43] = None
   \<and> download_youtube_video no_res_world ''u'' app0
        = ((None, None), st_error ''No suitable video stream found'' app0)
   \<and> \<not> (is_progressive s137 \<and> subtype s137 = ''mp4'')
   \<and> \<not> (is_progressive s43 \<and> subtype s43 = ''mp4'')
   \<and> yt_streams no_stream_world ''u'' = Inr [s137, s43]
   \<and> download_youtube_video no_stream_world ''u'' app0
        = ((None, None), st_error ''No suitable video stream found'' app0)"
proof -
  have h1: "candidates [tie_a, s18, tie_b, s137] \<noteq> []"
    by (simp add: candidates_def tie_a_def)
  have h2: "candidates [no_res, s43] = []"
    by (simp add: candidates_def no_res_def s43_def)
  have h3: "(\<forall>s\<in>set [s137, s43]. \<not> (is_progressive s \<and> subtype s = ''mp4''))
        \<and> yt_streams no_stream_world ''u'' = Inr [s137, s43]"
    by (simp add: s137_def s43_def no_stream_world_def demo_world_def)
  have h4: "yt_streams no_res_world ''u'' = Inr [no_res, s43]"
    by (simp add: no_res_world_def demo_world_def)
  have h5: "yt_streams tie_world ''u'' = Inr [tie_a, s18, tie_b, s137]"
    "yt_title tie_world ''u'' = Inr ''My: Video?''"
    by (simp_all add: tie_world_def demo_world_def)
  have h6: "is_progressive no_res \<and> subtype no_res = ''mp4''"
    by (simp add: no_res_def)
  note t = select_stream_last_highest [of "[tie_a, s18, tie_b, s137]" tie_world "''u''" app0 "''My: Video?''"]
  note n = select_stream_last_highest [of "[no_res, s43]" no_res_world "''u''" app0]
  note s = select_stream_last_highest [of "[s137, s43]" no_stream_world "''u''" app0]
  from t h1 h5 have d: "downloads (snd (download_youtube_video tie_world ''u'' app0))
       = [(tie_b, ''youtube_videos'', ''My Video.mp4'')]"
    by (simp add: select_tie join_demo app0_def)
  from t h1 have c: "\<exists>v. select_stream [tie_a, s18, tie_b, s137] = Some v
          \<and> v \<in> set (candidates [tie_a, s18, tie_b, s137])
          \<and> (\<forall>t\<in>set (candidates [tie_a, s18, tie_b, s137]). res_key t \<le> res_key v)
          \<and> v = last (filter (\<lambda>t. resolution t = resolution v)
                        (candidates [tie_a, s18, tie_b, s137]))"
    by blast
  from n h2 h4 have e: "select_stream [no_res, s43] = None
     \<and> download_youtube_video no_res_world ''u'' app0
        = ((None, None), st_error ''No suitable video stream found'' app0)"
    by blast
  from s h3 have f: "download_youtube_video no_stream_world ''u'' app0
        = ((None, None), st_error ''No suitable video stream found'' app0)"
    by blast
  have g: "\<not> (is_progressive s137 \<and> subtype s137 = ''mp4'')"
    "\<not> (is_progressive s43 \<and> subtype s43 = ''mp4'')"
    "yt_streams no_stream_world ''u'' = Inr [s137, s43]"
    using h3 by simp_all
  from h1 c select_tie h5 d h6 h4 h2 e g f show ?thesis by blast
qed

subsection \<open>trim_video: the loop and the handles\<close>

lemma segment_loop_ok:
  "\<forall>i\<in>set idx. write_segment w (start_time seg i) (end_time dur seg i) (part_path dir i) = None
   \<Longrightarrow> segment_loop w dur seg dir n idx paths st =
        (Inr (paths @ map (part_path dir) idx),
         st\<lparr>subclips := subclips st @ map (window dur seg) idx,
            written := written st @ map (part_path dir) idx,
            progress_updates := progress_updates st @ map (progress_at n) idx\<rparr>)"
proof (induction idx arbitrary: paths st)
  case Nil
  then show ?case by simp
next
  case (Cons i rest)
  then show ?case
    by (simp add: Let_def window_def progress_at_def)
qed

lemma segment_loop_fail:
  assumes "\<forall>i\<in>set pre. write_segment w (start_time seg i) (end_time dur seg i) (part_path dir i) = None"
    and "write_segment w (start_time seg k) (end_time dur seg k) (part_path dir k) = Some err"
  shows "segment_loop w dur seg dir n (pre @ k # post) paths st =
        (Inl err,
         st\<lparr>subclips := subclips st @ map (window dur seg) (pre @ [k]),
            written := written st @ map (part_path dir) pre,
            progress_updates := progress_updates st @ map (progress_at n) pre\<rparr>)"
  using assms
proof (induction pre arbitrary: paths st)
  case Nil
  then show ?case by (simp add: Let_def window_def)
next
  case (Cons i rest)
  then show ?case
    by (simp add: Let_def window_def progress_at_def)
qed

lemma segment_loop_frame:
  "segment_loop w dur seg dir n idx paths st = (r, st') \<Longrightarrow>
   errors st' = errors st \<and> successes st' = successes st
   \<and> clips_opened st' = clips_opened st \<and> clips_closed st' = clips_closed st"
proof (induction idx arbitrary: paths st)
  case Nil
  then show ?case by auto
next
  case (Cons i rest)
  show ?case
  proof (cases "write_segment w (start_time seg i) (end_time dur seg i) (part_path dir i)")
    case None
    with Cons.prems have "segment_loop w dur seg dir n rest (paths @ [part_path dir i])
        (st\<lparr>subclips := subclips st @ [(start_time seg i, end_time dur seg i)],
            written := written st @ [part_path dir i],
            progress_updates := progress_updates st @ [of_nat (i + 1) / of_int n]\<rparr>) = (r, st')"
      by (simp add: Let_def)
    from Cons.IH [OF this] show ?thesis by simp
  next
    case (Some err)
    with Cons.prems show ?thesis by (auto simp: Let_def)
  qed
qed

lemma segment_loop_Inr:
  "segment_loop w dur seg dir n idx paths st = (Inr ps, st') \<Longrightarrow>
   ps = paths @ map (part_path dir) idx
   \<and> progress_updates st' = progress_updates st @ map (progress_at n) idx"
proof (induction idx arbitrary: paths st)
  case Nil
  then show ?case by auto
next
  case (Cons i rest)
  show ?case
  proof (cases "write_segment w (start_time seg i) (end_time dur seg i) (part_path dir i)")
    case None
    with Cons.prems have "segment_loop w dur seg dir n rest (paths @ [part_path dir i])
        (st\<lparr>subclips := subclips st @ [(start_time seg i, end_time dur seg i)],
            written := written st @ [part_path dir i],
            progress_updates := progress_updates st @ [of_nat (i + 1) / of_int n]\<rparr>) = (Inr ps, st')"
      by (simp add: Let_def)
    from Cons.IH [OF this] show ?thesis by (simp add: progress_at_def)
  next
    case (Some err)
    with Cons.prems show ?thesis by (auto simp: Let_def)
  qed
qed


lemma num_segments_pos:
  assumes "0 < seg"
  shows "num_segments_of dur seg = Inr \<lceil>dur / of_int seg\<rceil>"
proof -
  let ?x = "dur / of_int seg"
  from assms have s: "(0::rat) < of_int seg" by simp
  have "dur - of_int seg * of_int \<lfloor>?x\<rfloor> = of_int seg * (?x - of_int \<lfloor>?x\<rfloor>)"
    using s by (simp add: algebra_simps)
  then have "0 < dur - of_int seg * of_int \<lfloor>?x\<rfloor> \<longleftrightarrow> 0 < ?x - of_int \<lfloor>?x\<rfloor>"
    using s by (simp add: zero_less_mult_iff)
  also have "\<dots> \<longleftrightarrow> ?x \<noteq> of_int \<lfloor>?x\<rfloor>"
    by (auto simp: less_le)
  finally have r: "0 < dur - of_int seg * of_int \<lfloor>?x\<rfloor> \<longleftrightarrow> ?x \<noteq> of_int \<lfloor>?x\<rfloor>" .
  from assms have "seg \<noteq> 0" by simp
  with r show ?thesis
    by (simp add: num_segments_of_def py_floordiv_def py_mod_def ceiling_altdef)
qed


lemma trim_try_loop:
  assumes "open_clip w p = Inr dur"
    and "num_segments_of dur seg = Inr n"
    and "path_exists w (output_dir_of f) \<or> makedirs w (output_dir_of f) = None"
  shows "trim_try w p f seg st =
     (case segment_loop w dur seg (output_dir_of f) n [0..<nat n] []
             ((if \<not> path_exists w (output_dir_of f)
               then st\<lparr>clips_opened := clips_opened st @ [p],
                       made_dirs := made_dirs st @ [output_dir_of f]\<rparr>
               else st\<lparr>clips_opened := clips_opened st @ [p]\<rparr>)\<lparr>bars := bars st @ [0]\<rparr>) of
        (r, st4) \<Rightarrow> (True, r, st4))"
  using assms
  by (auto simp: trim_try_def Let_def output_dir_of_def split: prod.splits)

lemma trim_try_frame:
  assumes "trim_try w p f seg st = (video, r, st1)"
  shows "errors st1 = errors st \<and> successes st1 = successes st
        \<and> clips_closed st1 = clips_closed st
        \<and> clips_opened st1 = (if video then clips_opened st @ [p] else clips_opened st)
        \<and> (video \<longleftrightarrow> (\<exists>d. open_clip w p = Inr d))"
proof (cases "open_clip w p")
  case (Inl e)
  with assms show ?thesis by (auto simp: trim_try_def)
next
  case (Inr d)
  note op = this
  show ?thesis
  proof (cases "num_segments_of d seg")
    case (Inl e)
    with op assms show ?thesis by (auto simp: trim_try_def Let_def)
  next
    case (Inr n)
    note ns = this
    show ?thesis
    proof (cases "path_exists w (output_dir_of f) \<or> makedirs w (output_dir_of f) = None")
      case False
      with op ns assms show ?thesis
        by (auto simp: trim_try_def Let_def output_dir_of_def)
    next
      case True
      let ?st3 = "(if \<not> path_exists w (output_dir_of f)
               then st\<lparr>clips_opened := clips_opened st @ [p],
                       made_dirs := made_dirs st @ [output_dir_of f]\<rparr>
               else st\<lparr>clips_opened := clips_opened st @ [p]\<rparr>)\<lparr>bars := bars st @ [0]\<rparr>"
      from assms trim_try_loop [OF op ns True, of st]
      have "segment_loop w d seg (output_dir_of f) n [0..<nat n] [] ?st3 = (r, st1)" and v: "video"
        by (auto split: prod.splits)
      from segment_loop_frame [OF this(1)] v op show ?thesis by auto
    qed
  qed
qed

lemma trim_video_handles:
  "clips_opened (snd (trim_video w p f seg st))
     = clips_opened st @ (if path_exists w p \<and> (\<exists>d. open_clip w p = Inr d) then [p] else [])
   \<and> clips_closed (snd (trim_video w p f seg st))
     = clips_closed st @ (if path_exists w p \<and> (\<exists>d. open_clip w p = Inr d) then [p] else [])"
proof (cases "path_exists w p")
  case False
  then show ?thesis by (simp add: trim_video_def st_error_def)
next
  case True
  obtain video r st1 where t: "trim_try w p f seg st = (video, r, st1)"
    by (cases "trim_try w p f seg st") auto
  from trim_try_frame [OF t] True t show ?thesis
    by (cases r) (auto simp: trim_video_def st_error_def Let_def)
qed

lemma trim_video_loop:
  assumes "path_exists w p" and "open_clip w p = Inr dur"
    and "num_segments_of dur seg = Inr n"
    and "path_exists w (output_dir_of f) \<or> makedirs w (output_dir_of f) = None"
    and "segment_loop w dur seg (output_dir_of f) n [0..<nat n] []
             ((if \<not> path_exists w (output_dir_of f)
               then st\<lparr>clips_opened := clips_opened st @ [p],
                       made_dirs := made_dirs st @ [output_dir_of f]\<rparr>
               else st\<lparr>clips_opened := clips_opened st @ [p]\<rparr>)\<lparr>bars := bars st @ [0]\<rparr>) = (r, st4)"
  shows "trim_video w p f seg st =
     (case r of
        Inl e \<Rightarrow> ([], (st_error (''Error trimming video: '' @ e) st4)
                        \<lparr>clips_closed := clips_closed st4 @ [p]\<rparr>)
      | Inr ps \<Rightarrow> (ps, st4\<lparr>clips_closed := clips_closed st4 @ [p]\<rparr>))"
  using assms(1) trim_try_loop [OF assms(2,3,4), of st] assms(5)
  by (cases r) (simp_all add: trim_video_def st_error_def)

lemma trim_video_ok:
  assumes "path_exists w p" and "open_clip w p = Inr dur"
    and "num_segments_of dur seg = Inr n"
    and "path_exists w (output_dir_of f) \<or> makedirs w (output_dir_of f) = None"
    and "\<forall>i<nat n. write_segment w (start_time seg i) (end_time dur seg i)
                      (part_path (output_dir_of f) i) = None"
  shows "fst (trim_video w p f seg st) = map (part_path (output_dir_of f)) [0..<nat n]
    \<and> errors (snd (trim_video w p f seg st)) = errors st
    \<and> subclips (snd (trim_video w p f seg st)) = subclips st @ map (window dur seg) [0..<nat n]
    \<and> written (snd (trim_video w p f seg st))
        = written st @ map (part_path (output_dir_of f)) [0..<nat n]
    \<and> progress_updates (snd (trim_video w p f seg st))
        = progress_updates st @ map (progress_at n) [0..<nat n]"
proof -
  have ok: "\<forall>i\<in>set [0..<nat n]. write_segment w (start_time seg i) (end_time dur seg i)
                      (part_path (output_dir_of f) i) = None"
    using assms(5) by simp
  show ?thesis
    by (subst (1 2 3 4 5) trim_video_loop [OF assms(1-4) segment_loop_ok [OF ok]])
       (simp split: if_splits)
qed

lemma trim_video_fail:
  assumes "path_exists w p" and "open_clip w p = Inr dur"
    and "num_segments_of dur seg = Inr n"
    and "path_exists w (output_dir_of f) \<or> makedirs w (output_dir_of f) = None"
    and "1 \<le> k" and "int k \<le> n"
    and "\<forall>i<k - 1. write_segment w (start_time seg i) (end_time dur seg i)
                      (part_path (output_dir_of f) i) = None"
    and "write_segment w (start_time seg (k - 1)) (end_time dur seg (k - 1))
                      (part_path (output_dir_of f) (k - 1)) = Some err"
  shows "fst (trim_video w p f seg st) = []
    \<and> errors (snd (trim_video w p f seg st)) = errors st @ [''Error trimming video: '' @ err]
    \<and> successes (snd (trim_video w p f seg st)) = successes st
    \<and> written (snd (trim_video w p f seg st))
        = written st @ map (part_path (output_dir_of f)) [0..<k - 1]
    \<and> progress_updates (snd (trim_video w p f seg st))
        = progress_updates st @ map (progress_at n) [0..<k - 1]"
proof -
  from assms(5,6) have "k - 1 < nat n" by linarith
  then have split: "[0..<nat n] = [0..<k - 1] @ (k - 1) # [Suc (k - 1)..<nat n]"
    by (metis upt_conv_Cons upt_add_eq_append zero_le le_add_diff_inverse less_imp_le_nat)
  have ok: "\<forall>i\<in>set [0..<k - 1]. write_segment w (start_time seg i) (end_time dur seg i)
                      (part_path (output_dir_of f) i) = None"
    using assms(7) by simp
  show ?thesis
    unfolding split
    by (subst (1 2 3 4 5) trim_video_loop [OF assms(1-4), unfolded split,
          OF segment_loop_fail [OF ok assms(8)]])
       (simp add: st_error_def split: if_splits)
qed

text \<open>
  Claim C8. Whenever \<^verbatim>\<open>trim_video\<close> has opened the clip (the file exists and
  \<^verbatim>\<open>VideoFileClip\<close> returned), the result state records exactly one more open and one
  more close of that path, whatever happened in between: all segments written, an
  exception in the planning, in the directory creation or in any segment. When the clip
  was not opened, neither list changes.
\<close>

theorem trim_video_closes_clip:
  "(path_exists w video_path \<and> (\<exists>d. open_clip w video_path = Inr d) \<longrightarrow>
      clips_opened (snd (trim_video w video_path filename segment_duration st))
        = clips_opened st @ [video_path]
      \<and> clips_closed (snd (trim_video w video_path filename segment_duration st))
        = clips_closed st @ [video_path])
   \<and> (\<not> (path_exists w video_path \<and> (\<exists>d. open_clip w video_path = Inr d)) \<longrightarrow>
      clips_opened (snd (trim_video w video_path filename segment_duration st)) = clips_opened st
      \<and> clips_closed (snd (trim_video w video_path filename segment_duration st))
        = clips_closed st)"
  using trim_video_handles [of w video_path filename segment_duration st]
  by (simp split: if_splits)

lemma demo_trim_facts:
  "path_exists demo_world ''youtube_videos/My Video.mp4''"
  "open_clip demo_world ''youtube_videos/My Video.mp4'' = Inr 150"
  "path_exists demo_world (output_dir_of ''My Video'')
     \<or> makedirs demo_world (output_dir_of ''My Video'') = None"
  by (simp_all add: demo_world_def)

theorem trim_video_closes_clip_witness:
  "(path_exists demo_world ''youtube_videos/My Video.mp4''
      \<and> (\<exists>d. open_clip demo_world ''youtube_videos/My Video.mp4'' = Inr d))
   \<and> clips_opened (snd (trim_video demo_world ''youtube_videos/My Video.mp4'' ''My Video'' 60 app0))
       = [''youtube_videos/My Video.mp4'']
   \<and> clips_closed (snd (trim_video demo_world ''youtube_videos/My Video.mp4'' ''My Video'' 60 app0))
       = [''youtube_videos/My Video.mp4'']
   \<and> clips_closed (snd (trim_video fail_world ''youtube_videos/My Video.mp4'' ''My Video'' 60 app0))
       = [''youtube_videos/My Video.mp4'']
   \<and> clips_closed (snd (trim_video demo_world ''youtube_videos/My Video.mp4'' ''My Video'' 0 app0))
       = [''youtube_videos/My Video.mp4'']
   \<and> \<not> (path_exists demo_world ''elsewhere.mp4''
          \<and> (\<exists>d. open_clip demo_world ''elsewhere.mp4'' = Inr d))
   \<and> clips_opened (snd (trim_video demo_world ''elsewhere.mp4'' ''My Video'' 60 app0)) = []
   \<and> clips_closed (snd (trim_video demo_world ''elsewhere.mp4'' ''My Video'' 60 app0)) = []"
proof -
  have h1: "path_exists demo_world ''youtube_videos/My Video.mp4''
      \<and> (\<exists>d. open_clip demo_world ''youtube_videos/My Video.mp4'' = Inr d)"
    by (simp add: demo_world_def)
  have h2: "path_exists fail_world ''youtube_videos/My Video.mp4''
      \<and> (\<exists>d. open_clip fail_world ''youtube_videos/My Video.mp4'' = Inr d)"
    by (simp add: demo_world_def fail_world_def)
  have h3: "\<not> (path_exists demo_world ''elsewhere.mp4''
          \<and> (\<exists>d. open_clip demo_world ''elsewhere.mp4'' = Inr d))"
    by (simp add: demo_world_def)
  from trim_video_closes_clip [of demo_world "''youtube_videos/My Video.mp4''" "''My Video''" 60 app0]
       trim_video_closes_clip [of fail_world "''youtube_videos/My Video.mp4''" "''My Video''" 60 app0]
       trim_video_closes_clip [of demo_world "''youtube_videos/My Video.mp4''" "''My Video''" 0 app0]
       trim_video_closes_clip [of demo_world "''elsewhere.mp4''" "''My Video''" 60 app0]
       h1 h2 h3
  show ?thesis by (simp add: app0_def)
qed

subsection \<open>trim_video: a segment fails\<close>

lemma floor_demo: "\<lfloor>(150::rat) / 60\<rfloor> = 2"
  by (simp add: floor_eq_iff)

lemma num_segments_demo: "num_segments_of 150 60 = Inr 3"
  using floor_demo by (simp add: num_segments_of_def py_floordiv_def py_mod_def)

lemma output_dir_demo: "output_dir_of ''My Video'' = ''trimmed_videos/My Video''"
  by (simp add: output_dir_of_def os_path_join_def sanitize_filename_filter forbidden_chars_def)

lemma part_path_demo:
  "part_path ''trimmed_videos/My Video'' 0 = ''trimmed_videos/My Video/part_1.mp4''"
  "part_path ''trimmed_videos/My Video'' (Suc 0) = ''trimmed_videos/My Video/part_2.mp4''"
  "part_path ''trimmed_videos/My Video'' 2 = ''trimmed_videos/My Video/part_3.mp4''"
  by (simp_all add: part_path_def os_path_join_def str_nat.simps digit_char_def)

lemma trim_stage_empty:
  "fst (trim_video w p f seg st) = [] \<Longrightarrow>
   trim_stage w p f seg st = ([], snd (trim_video w p f seg st))"
  by (cases "trim_video w p f seg st") (simp add: trim_stage_def)

text \<open>
  Claim C1, as the code has it. When the clip opens, \<open>n\<close> segments are planned, and the
  first failing segment is segment \<open>k\<close> (from 1) with exception text \<open>err\<close>, then
  \<^verbatim>\<open>trim_video\<close> returns the empty list and reports \<open>Error trimming video: err\<close>. The
  \<open>k - 1\<close> files written before stay on disk and are not returned. The result never has
  \<open>n\<close> paths, and the caller shows no gallery and no success message.
\<close>

theorem trim_video_failure_returns_nothing:
  assumes "path_exists w video_path" and "open_clip w video_path = Inr dur"
    and "num_segments_of dur segment_duration = Inr n"
    and "path_exists w (output_dir_of filename) \<or> makedirs w (output_dir_of filename) = None"
    and "1 \<le> k" and "int k \<le> n"
    and "\<forall>i<k - 1. write_segment w (start_time segment_duration i)
           (end_time dur segment_duration i) (part_path (output_dir_of filename) i) = None"
    and "write_segment w (start_time segment_duration (k - 1))
           (end_time dur segment_duration (k - 1))
           (part_path (output_dir_of filename) (k - 1)) = Some err"
  shows "fst (trim_video w video_path filename segment_duration st) = []
    \<and> errors (snd (trim_video w video_path filename segment_duration st))
        = errors st @ [''Error trimming video: '' @ err]
    \<and> written (snd (trim_video w video_path filename segment_duration st))
        = written st @ map (part_path (output_dir_of filename)) [0..<k - 1]
    \<and> int (length (fst (trim_video w video_path filename segment_duration st))) \<noteq> n
    \<and> fst (trim_stage w video_path filename segment_duration st) = []
    \<and> successes (snd (trim_stage w video_path filename segment_duration st)) = successes st"
proof -
  note f = trim_video_fail [OF assms, of st]
  from f have e: "fst (trim_video w video_path filename segment_duration st) = []" by simp
  from assms(5,6) have "n \<noteq> 0" by linarith
  with f e show ?thesis by (simp add: trim_stage_empty)
qed

text \<open>
  The claim as it was written says that the \<open>k - 1\<close> paths produced before the failure are
  returned. With three segments planned and the second failing, one file was written and
  the function returns no path.
\<close>

theorem partial_artifacts_counterexample:
  "num_segments_of 150 60 = Inr 3
   \<and> write_segment fail_world (start_time 60 0) (end_time 150 60 0)
        (part_path (output_dir_of ''My Video'') 0) = None
   \<and> write_segment fail_world (start_time 60 1) (end_time 150 60 1)
        (part_path (output_dir_of ''My Video'') 1) = Some ''encoder failed''
   \<and> written (snd (trim_video fail_world ''youtube_videos/My Video.mp4'' ''My Video'' 60 app0))
        = [''trimmed_videos/My Video/part_1.mp4'']
   \<and> fst (trim_video fail_world ''youtube_videos/My Video.mp4'' ''My Video'' 60 app0) = []
   \<and> length (fst (trim_video fail_world ''youtube_videos/My Video.mp4'' ''My Video'' 60 app0))
        \<noteq> 2 - 1"
proof -
  have w0: "write_segment fail_world (start_time 60 0) (end_time 150 60 0)
        (part_path (output_dir_of ''My Video'') 0) = None"
    by (simp add: fail_world_def demo_world_def output_dir_demo part_path_demo)
  have w1: "write_segment fail_world (start_time 60 (2 - 1)) (end_time 150 60 (2 - 1))
        (part_path (output_dir_of ''My Video'') (2 - 1)) = Some ''encoder failed''"
    by (simp add: fail_world_def demo_world_def output_dir_demo part_path_demo)
  have pre: "\<forall>i<2 - 1. write_segment fail_world (start_time 60 i) (end_time 150 60 i)
        (part_path (output_dir_of ''My Video'') i) = None"
    using w0 by simp
  have ex: "path_exists fail_world ''youtube_videos/My Video.mp4''"
    and op: "open_clip fail_world ''youtube_videos/My Video.mp4'' = Inr 150"
    and md: "path_exists fail_world (output_dir_of ''My Video'')
             \<or> makedirs fail_world (output_dir_of ''My Video'') = None"
    by (simp_all add: fail_world_def demo_world_def)
  have k1: "1 \<le> (2::nat)" and k2: "int 2 \<le> 3" by simp_all
  from trim_video_fail [OF ex op num_segments_demo md k1 k2 pre w1, of app0] w0 w1
  show ?thesis
    by (simp add: num_segments_demo app0_def output_dir_demo part_path_demo)
qed

theorem trim_video_failure_returns_nothing_witness:
  "path_exists fail_world ''youtube_videos/My Video.mp4''
   \<and> open_clip fail_world ''youtube_videos/My Video.mp4'' = Inr 150
   \<and> num_segments_of 150 60 = Inr 3
   \<and> fst (trim_video fail_world ''youtube_videos/My Video.mp4'' ''My Video'' 60 app0) = []
   \<and> errors (snd (trim_video fail_world ''youtube_videos/My Video.mp4'' ''My Video'' 60 app0))
        = [''Error trimming video: encoder failed'']
   \<and> fst (trim_stage fail_world ''youtube_videos/My Video.mp4'' ''My Video'' 60 app0) = []
   \<and> successes (snd (trim_stage fail_world ''youtube_videos/My Video.mp4'' ''My Video'' 60 app0))
        = []"
proof -
  have w0: "write_segment fail_world (start_time 60 0) (end_time 150 60 0)
        (part_path (output_dir_of ''My Video'') 0) = None"
    by (simp add: fail_world_def demo_world_def output_dir_demo part_path_demo)
  have w1: "write_segment fail_world (start_time 60 (2 - 1)) (end_time 150 60 (2 - 1))
        (part_path (output_dir_of ''My Video'') (2 - 1)) = Some ''encoder failed''"
    by (simp add: fail_world_def demo_world_def output_dir_demo part_path_demo)
  have pre: "\<forall>i<2 - 1. write_segment fail_world (start_time 60 i) (end_time 150 60 i)
        (part_path (output_dir_of ''My Video'') i) = None"
    using w0 by simp
  have ex: "path_exists fail_world ''youtube_videos/My Video.mp4''"
    and op: "open_clip fail_world ''youtube_videos/My Video.mp4'' = Inr 150"
    and md: "path_exists fail_world (output_dir_of ''My Video'')
             \<or> makedirs fail_world (output_dir_of ''My Video'') = None"
    by (simp_all add: fail_world_def demo_world_def)
  have k1: "1 \<le> (2::nat)" and k2: "int 2 \<le> 3" by simp_all
  from trim_video_failure_returns_nothing
         [OF ex op num_segments_demo md k1 k2 pre w1, of app0] ex op
  show ?thesis
    by (simp add: num_segments_demo app0_def)
qed

subsection \<open>trim_video: segment lengths of zero or less\<close>






subsection \<open>trim_video: the windows and the progress\<close>

lemma trim_try_Inr:
  assumes "trim_try w p f seg st = (video, Inr ps, st1)"
  shows "\<exists>n. ps = map (part_path (output_dir_of f)) [0..<nat n]
           \<and> progress_updates st1 = progress_updates st @ map (progress_at n) [0..<nat n]"
proof (cases "open_clip w p")
  case (Inl e)
  with assms show ?thesis by (simp add: trim_try_def)
next
  case (Inr d)
  note op = this
  show ?thesis
  proof (cases "num_segments_of d seg")
    case (Inl e)
    with op assms show ?thesis by (simp add: trim_try_def Let_def)
  next
    case (Inr n)
    note ns = this
    show ?thesis
    proof (cases "path_exists w (output_dir_of f) \<or> makedirs w (output_dir_of f) = None")
      case False
      with op ns assms show ?thesis
        by (auto simp: trim_try_def Let_def output_dir_of_def)
    next
      case True
      let ?st3 = "(if \<not> path_exists w (output_dir_of f)
               then st\<lparr>clips_opened := clips_opened st @ [p],
                       made_dirs := made_dirs st @ [output_dir_of f]\<rparr>
               else st\<lparr>clips_opened := clips_opened st @ [p]\<rparr>)\<lparr>bars := bars st @ [0]\<rparr>"
      from assms trim_try_loop [OF op ns True, of st]
      have "segment_loop w d seg (output_dir_of f) n [0..<nat n] [] ?st3 = (Inr ps, st1)"
        by (auto split: prod.splits)
      from segment_loop_Inr [OF this] show ?thesis by (intro exI [of _ n]) simp
    qed
  qed
qed

lemma progress_list_props:
  fixes n :: int
  defines "ups \<equiv> map (progress_at n) [0..<nat n]"
  shows "length ups = nat n"
    and "\<forall>v\<in>set ups. 0 < v \<and> v \<le> 1"
    and "sorted_wrt (<) ups"
    and "0 < n \<Longrightarrow> last ups = 1"
proof -
  show "length ups = nat n" by (simp add: ups_def)
  show "\<forall>v\<in>set ups. 0 < v \<and> v \<le> 1"
  proof
    fix v assume "v \<in> set ups"
    then obtain i where i: "i < nat n" "v = of_nat (i + 1) / of_int n"
      by (auto simp: ups_def progress_at_def)
    then have n: "0 < n" by linarith
    from i have "int (i + 1) \<le> n" by linarith
    then have "(of_nat (i + 1) :: rat) \<le> of_int n"
      by (metis of_int_le_iff of_int_of_nat_eq)
    with n i show "0 < v \<and> v \<le> 1" by (simp add: divide_le_eq_1)
  qed
  show "sorted_wrt (<) ups"
    unfolding sorted_wrt_iff_nth_less
  proof (intro allI impI)
    fix i j assume ij: "i < j" "j < length ups"
    then have j: "j < nat n" and i: "i < nat n" by (simp_all add: ups_def)
    then have n: "(0::rat) < of_int n" by simp
    from ij have "(of_nat (i + 1) :: rat) < of_nat (j + 1)" by simp
    with n have "progress_at n i < progress_at n j"
      unfolding progress_at_def by (simp add: divide_strict_right_mono)
    with i j show "ups ! i < ups ! j" by (simp add: ups_def)
  qed
  show "last ups = 1" if "0 < n"
  proof -
    from that have m: "[0..<nat n] \<noteq> []" by simp
    have l: "last [0..<nat n] = nat n - 1" using that by simp
    have "of_nat (nat n - 1 + 1) = (of_int n :: rat)"
      using that by (metis of_int_of_nat_eq Suc_eq_plus1 Suc_pred' nat_0_le order_less_imp_le zero_less_nat_eq)
    with that show ?thesis
      by (simp add: ups_def last_map [OF m] l progress_at_def)
  qed
qed




lemma windows_cut_ok:
  assumes "path_exists w p" and "open_clip w p = Inr dur"
    and "path_exists w (output_dir_of f) \<or> makedirs w (output_dir_of f) = None"
    and "\<forall>s e q. write_segment w s e q = None"
    and "0 < seg"
  shows "windows_cut w p f seg = map (window dur seg) [0..<nat \<lceil>dur / of_int seg\<rceil>]"
    and "fst (trim_video w p f seg app0)
           = map (part_path (output_dir_of f)) [0..<nat \<lceil>dur / of_int seg\<rceil>]"
    and "progress_updates (snd (trim_video w p f seg app0))
           = map (progress_at \<lceil>dur / of_int seg\<rceil>) [0..<nat \<lceil>dur / of_int seg\<rceil>]"
    and "errors (snd (trim_video w p f seg app0)) = []"
proof -
  have ok: "\<forall>i<nat \<lceil>dur / of_int seg\<rceil>. write_segment w (start_time seg i) (end_time dur seg i)
                      (part_path (output_dir_of f) i) = None"
    using assms(4) by simp
  note r = trim_video_ok [OF assms(1,2) num_segments_pos [OF assms(5)] assms(3) ok, of app0]
  from r show "windows_cut w p f seg = map (window dur seg) [0..<nat \<lceil>dur / of_int seg\<rceil>]"
    by (simp add: windows_cut_def app0_def)
  from r show "fst (trim_video w p f seg app0)
           = map (part_path (output_dir_of f)) [0..<nat \<lceil>dur / of_int seg\<rceil>]"
    by simp
  from r show "progress_updates (snd (trim_video w p f seg app0))
           = map (progress_at \<lceil>dur / of_int seg\<rceil>) [0..<nat \<lceil>dur / of_int seg\<rceil>]"
    by (simp add: app0_def)
  from r show "errors (snd (trim_video w p f seg app0)) = []"
    by (simp add: app0_def)
qed

lemma ceiling_demo: "\<lceil>(150::rat) / 60\<rceil> = 3" "\<lceil>(5::rat) / 2\<rceil> = 3"
  by (simp_all add: ceiling_eq_iff)

lemma upt_3: "[0..<3] = [0, 1, 2]"
  by (simp add: upt_rec)

lemma demo_writes: "\<forall>s e q. write_segment demo_world s e q = None"
  by (simp add: demo_world_def)




lemma trim_video_noerr:
  assumes "trim_video w p f seg st = (paths, st')" and "errors st' = errors st"
  shows "\<exists>n. paths = map (part_path (output_dir_of f)) [0..<nat n]
           \<and> progress_updates st' = progress_updates st @ map (progress_at n) [0..<nat n]"
proof (cases "path_exists w p")
  case False
  with assms show ?thesis by (auto simp: trim_video_def st_error_def)
next
  case True
  obtain video r st1 where t: "trim_try w p f seg st = (video, r, st1)"
    by (cases "trim_try w p f seg st") auto
  note fr = trim_try_frame [OF t]
  show ?thesis
  proof (cases r)
    case (Inl e)
    with True t assms fr show ?thesis
      by (auto simp: trim_video_def st_error_def split: if_splits)
  next
    case (Inr ps)
    with True t assms have "paths = ps" "progress_updates st' = progress_updates st1"
      by (auto simp: trim_video_def split: if_splits)
    with trim_try_Inr [OF t [unfolded Inr]] show ?thesis by auto
  qed
qed

text \<open>
  Claim C4. In a run of \<^verbatim>\<open>trim_video\<close> that reports no error, the values given to the
  progress bar are as many as the paths returned, each lies between 0 and 1, they increase
  strictly (so they do not decrease), and when there is a path the last value is 1. These
  are the values of the calls \<^verbatim>\<open>progress_bar.progress(progress)\<close>, one after each segment;
  the 0 that \<^verbatim>\<open>st.progress(0)\<close> creates the bar with is recorded in \<open>bars\<close>.
\<close>

theorem progress_on_success:
  assumes "trim_video w video_path filename segment_duration st = (paths, st')"
    and "errors st' = errors st"
  shows "\<exists>ups. progress_updates st' = progress_updates st @ ups
           \<and> length ups = length paths
           \<and> (\<forall>v\<in>set ups. 0 \<le> v \<and> v \<le> 1)
           \<and> sorted ups \<and> sorted_wrt (<) ups
           \<and> (paths \<noteq> [] \<longrightarrow> last ups = 1)"
proof -
  from trim_video_noerr [OF assms] obtain n
    where n: "paths = map (part_path (output_dir_of filename)) [0..<nat n]"
      "progress_updates st' = progress_updates st @ map (progress_at n) [0..<nat n]"
    by blast
  let ?ups = "map (progress_at n) [0..<nat n]"
  note p = progress_list_props [of n]
  have len: "length ?ups = length paths" using n(1) by simp
  have rng: "\<forall>v\<in>set ?ups. 0 \<le> v \<and> v \<le> 1" using p(2) by (auto intro: less_imp_le)
  have srt: "sorted ?ups"
    by (rule sorted_wrt_mono_rel [OF _ p(3)]) simp
  have lst: "paths \<noteq> [] \<longrightarrow> last ?ups = 1"
  proof
    assume "paths \<noteq> []"
    with n(1) have "0 < n" by simp
    then show "last ?ups = 1" by (rule p(4))
  qed
  from n(2) len rng srt p(3) lst show ?thesis by blast
qed

theorem progress_on_success_witness:
  "trim_video demo_world ''youtube_videos/My Video.mp4'' ''My Video'' 60 app0
     = (fst (trim_video demo_world ''youtube_videos/My Video.mp4'' ''My Video'' 60 app0),
        snd (trim_video demo_world ''youtube_videos/My Video.mp4'' ''My Video'' 60 app0))
   \<and> errors (snd (trim_video demo_world ''youtube_videos/My Video.mp4'' ''My Video'' 60 app0))
       = errors app0
   \<and> progress_updates (snd (trim_video demo_world ''youtube_videos/My Video.mp4'' ''My Video'' 60 app0))
       = [1 / 3, 2 / 3, 1]
   \<and> length (fst (trim_video demo_world ''youtube_videos/My Video.mp4'' ''My Video'' 60 app0)) = 3
   \<and> (\<exists>ups. progress_updates
               (snd (trim_video demo_world ''youtube_videos/My Video.mp4'' ''My Video'' 60 app0))
             = progress_updates app0 @ ups
           \<and> length ups
             = length (fst (trim_video demo_world ''youtube_videos/My Video.mp4'' ''My Video'' 60 app0))
           \<and> (\<forall>v\<in>set ups. 0 \<le> v \<and> v \<le> 1)
           \<and> sorted ups \<and> sorted_wrt (<) ups
           \<and> (fst (trim_video demo_world ''youtube_videos/My Video.mp4'' ''My Video'' 60 app0) \<noteq> []
                \<longrightarrow> last ups = 1))"
proof -
  have s: "(0::int) < 60" by simp
  note ok = windows_cut_ok [OF demo_trim_facts demo_writes s]
  have h1: "trim_video demo_world ''youtube_videos/My Video.mp4'' ''My Video'' 60 app0
     = (fst (trim_video demo_world ''youtube_videos/My Video.mp4'' ''My Video'' 60 app0),
        snd (trim_video demo_world ''youtube_videos/My Video.mp4'' ''My Video'' 60 app0))"
    by simp
  have h2: "errors (snd (trim_video demo_world ''youtube_videos/My Video.mp4'' ''My Video'' 60 app0))
       = errors app0"
    using ok(4) by (simp add: app0_def)
  have v: "progress_updates (snd (trim_video demo_world ''youtube_videos/My Video.mp4'' ''My Video'' 60 app0))
       = [1 / 3, 2 / 3, 1]"
    using ok(3) by (simp add: ceiling_demo upt_3 progress_at_def)
  have l: "length (fst (trim_video demo_world ''youtube_videos/My Video.mp4'' ''My Video'' 60 app0)) = 3"
    using ok(2) by (simp add: ceiling_demo)
  from progress_on_success [OF h1 h2] h1 h2 v l show ?thesis by blast
qed

end
